theory Spec2Isabelle
  imports Main
begin

section \<open>Values, messages and errors (types.ts)\<close>

text \<open>
  Values that cross the channel are structured-cloneable JavaScript values. Numbers are
  carried opaquely by the bridge (it does no arithmetic on them), so integers stand for
  them. An object is the list of its own enumerable properties in the order in which
  they were created (insertion order), one entry for each key. An absent optional field
  is \<open>JUndefined\<close>.
\<close>

datatype jsval =
    JUndefined
  | JNull
  | JBool bool
  | JNum int
  | JStr string
  | JArr "jsval list"
  | JObj "(string \<times> jsval) list"

type_synonym msg_id = string

datatype ErrorCode =
    MODULE_FETCH_FAILED
  | WASM_INIT_FAILED
  | FN_NOT_FOUND
  | INVALID_PAYLOAD
  | WASM_TRAP
  | NOT_INITIALIZED
  | UNKNOWN_ERROR

text \<open>The \<open>error\<close> field of an \<open>ErrorMsg\<close>: \<^verbatim>\<open>{ code, message, details? }\<close>.\<close>

record error_info =
  code :: ErrorCode
  message :: string
  details :: jsval

text \<open>
  The order in which \<^verbatim>\<open>Object.values\<close> enumerates the properties of an object: first
  the keys that are array indices (the canonical decimal numeral of an integer from 0 to
  \<open>2\<^sup>3\<^sup>2 - 2\<close>), ascending by their number, then the other keys in the order of their
  creation.
\<close>

definition digit_of :: "char \<Rightarrow> int option" where
  "digit_of c = map_of (zip ''0123456789'' [0, 1, 2, 3, 4, 5, 6, 7, 8, 9]) c"

fun digits_value :: "int \<Rightarrow> string \<Rightarrow> int option" where
  "digits_value acc [] = Some acc"
| "digits_value acc (c # cs) =
     (case digit_of c of None \<Rightarrow> None | Some d \<Rightarrow> digits_value (10 * acc + d) cs)"

definition array_index :: "string \<Rightarrow> int option" where
  "array_index k =
     (if k = [] \<or> (hd k = CHR ''0'' \<and> length k > 1) then None
      else (case digits_value 0 k of
              None \<Rightarrow> None
            | Some n \<Rightarrow> if n \<le> 4294967294 then Some n else None))"

definition indexed_properties :: "(string \<times> jsval) list \<Rightarrow> (int \<times> jsval) list" where
  "indexed_properties kvs =
     List.map_filter (\<lambda>(k, v). map_option (\<lambda>n. (n, v)) (array_index k)) kvs"

definition Object_values :: "(string \<times> jsval) list \<Rightarrow> jsval list" where
  "Object_values kvs =
     map snd (sort_key fst (indexed_properties kvs))
     @ map snd (filter (\<lambda>(k, v). array_index k = None) kvs)"

text \<open>Messages sent to the worker (\<open>WorkerRequest\<close>): id first, then the other fields.\<close>

datatype WorkerRequest =
    InitMsg msg_id string jsval
  | CallMsg msg_id string jsval
  | StreamOpenMsg msg_id string jsval

text \<open>Messages received from the worker (\<open>WorkerResponse\<close>). \<open>ReadyMsg\<close> has no id.\<close>

datatype WorkerResponse =
    ResultMsg msg_id jsval
  | ErrorMsg msg_id error_info
  | StreamChunkMsg msg_id jsval
  | StreamCloseMsg msg_id
  | ReadyMsg

text \<open>
  A thrown JavaScript value: an \<open>Error\<close> instance with its message, or any other value.
\<close>

datatype exn = JsError string | JsThrown jsval

section \<open>The Execution Runtime (worker/runtime.ts)\<close>

text \<open>
  An exported function is called with a list of arguments; it returns or throws, and may
  change the instance's internal store (linear memory, globals), of type \<open>'m\<close>.
  The exports object is the list of its properties in the order in which
  \<^verbatim>\<open>Object.keys\<close> enumerates them.
\<close>

datatype 'm export =
    ExFunction "jsval list \<Rightarrow> 'm \<Rightarrow> (exn + jsval) \<times> 'm"
  | ExMemory nat
  | ExOther

record 'm wasm_instance =
  exports :: "(string \<times> 'm export) list"
  store :: 'm

text \<open>
  \<open>RuntimeState\<close> is the module-level \<open>state\<close> object; its fields \<open>instance\<close>, \<open>memory\<close>
  and \<open>initialized\<close> carry the prefix \<open>rt_\<close> here. The runtime record adds the two effects
  of the worker: \<open>outbox\<close>, the messages passed to \<^verbatim>\<open>postMessage\<close> in order, and \<open>invoked\<close>,
  the calls of exported functions made so far (export name and argument list).
\<close>

record 'm runtime =
  rt_instance :: "'m wasm_instance option"
  rt_memory :: "nat option"
  rt_initialized :: bool
  outbox :: "WorkerResponse list"
  invoked :: "(string \<times> jsval list) list"

text \<open>
  The state of a worker once its script has run: nothing is loaded, and the script's last
  statement has posted the \<open>ready\<close> signal.
\<close>

definition runtime_start :: "'m runtime" where
  "runtime_start =
     \<lparr>rt_instance = None, rt_memory = None, rt_initialized = False, outbox = [ReadyMsg],
      invoked = []\<rparr>"

text \<open>
  The browser primitives the runtime calls are parameters: \<^verbatim>\<open>fetch\<close> (it rejects, or
  resolves with a response), \<^verbatim>\<open>WebAssembly.compile\<close>, \<^verbatim>\<open>WebAssembly.instantiate\<close> and
  the conversion \<^verbatim>\<open>String(v)\<close>.
\<close>

record response =
  ok :: bool
  status :: int
  statusText :: string
  arrayBuffer :: "exn + nat list"

datatype wasm_module = WasmModule "nat list"

record 'm platform =
  fetch :: "string \<Rightarrow> exn + response"
  compile :: "nat list \<Rightarrow> exn + wasm_module"
  instantiate :: "wasm_module \<Rightarrow> jsval \<Rightarrow> exn + 'm wasm_instance"
  js_String :: "jsval \<Rightarrow> string"

text \<open>
  Statements that may throw: a computation returns a value or a thrown one, together with
  the runtime as it stands at that point. \<open>try_catch\<close> is \<^verbatim>\<open>try { body } catch (e) { handler }\<close>.
\<close>

definition try_catch ::
  "(exn + 'a) \<times> 's \<Rightarrow> (exn \<Rightarrow> 's \<Rightarrow> (exn + 'a) \<times> 's) \<Rightarrow> (exn + 'a) \<times> 's" where
  "try_catch body handler = (case body of (Inl e, s) \<Rightarrow> handler e s | (Inr a, s) \<Rightarrow> (Inr a, s))"

definition sendResult :: "msg_id \<Rightarrow> jsval \<Rightarrow> 'm runtime \<Rightarrow> 'm runtime" where
  "sendResult i v rt = rt\<lparr>outbox := outbox rt @ [ResultMsg i v]\<rparr>"

definition sendError :: "msg_id \<Rightarrow> ErrorCode \<Rightarrow> string \<Rightarrow> jsval \<Rightarrow> 'm runtime \<Rightarrow> 'm runtime" where
  "sendError i c m d rt =
     rt\<lparr>outbox := outbox rt @ [ErrorMsg i \<lparr>code = c, message = m, details = d\<rparr>]\<rparr>"

text \<open>\<^verbatim>\<open>error instanceof Error ? error.message : String(error)\<close>\<close>

definition errorMsg_of :: "'m platform \<Rightarrow> exn \<Rightarrow> string" where
  "errorMsg_of P e = (case e of JsError m \<Rightarrow> m | JsThrown v \<Rightarrow> js_String P v)"

text \<open>JavaScript truthiness, for \<^verbatim>\<open>msg.init || {}\<close>.\<close>

fun truthy :: "jsval \<Rightarrow> bool" where
  "truthy JUndefined = False"
| "truthy JNull = False"
| "truthy (JBool b) = b"
| "truthy (JNum n) = (n \<noteq> 0)"
| "truthy (JStr s) = (s \<noteq> [])"
| "truthy (JArr xs) = True"
| "truthy (JObj kvs) = True"

text \<open>
  The \<^verbatim>\<open>try\<close> block of \<open>handleInit\<close>. Every \<^verbatim>\<open>await\<close> may throw; the state is written
  only after the last one, in one synchronous run, so the handler is modelled at the
  moment it completes.
\<close>

definition handleInit_try ::
  "'m platform \<Rightarrow> msg_id \<Rightarrow> string \<Rightarrow> jsval \<Rightarrow> 'm runtime \<Rightarrow> (exn + unit) \<times> 'm runtime" where
  "handleInit_try P i moduleUrl ini rt =
     (case fetch P moduleUrl of
        Inl e \<Rightarrow> (Inl e, rt)
      | Inr resp \<Rightarrow>
          if \<not> ok resp then
            (Inr (),
             sendError i MODULE_FETCH_FAILED (''Failed to fetch module: '' @ statusText resp)
               (JObj [(''status'', JNum (status resp)), (''url'', JStr moduleUrl)]) rt)
          else
            (case arrayBuffer resp of
               Inl e \<Rightarrow> (Inl e, rt)
             | Inr wasmBuffer \<Rightarrow>
                 (case compile P wasmBuffer of
                    Inl e \<Rightarrow> (Inl e, rt)
                  | Inr wasmModule \<Rightarrow>
                      (case instantiate P wasmModule
                              (JObj [(''env'', if truthy ini then ini else JObj [])]) of
                         Inl e \<Rightarrow> (Inl e, rt)
                       | Inr inst \<Rightarrow>
                           (let rt1 = rt\<lparr>rt_instance := Some inst\<rparr>;
                                rt2 = (case map_of (exports inst) ''memory'' of
                                         Some (ExMemory m) \<Rightarrow> rt1\<lparr>rt_memory := Some m\<rparr>
                                       | _ \<Rightarrow> rt1);
                                rt3 = rt2\<lparr>rt_initialized := True\<rparr>
                            in (Inr (),
                                sendResult i (JObj [(''initialized'', JBool True)]) rt3))))))"

definition handleInit ::
  "'m platform \<Rightarrow> msg_id \<Rightarrow> string \<Rightarrow> jsval \<Rightarrow> 'm runtime \<Rightarrow> (exn + unit) \<times> 'm runtime" where
  "handleInit P i moduleUrl ini rt =
     try_catch (handleInit_try P i moduleUrl ini rt)
       (\<lambda>e rt'. (Inr (),
          sendError i WASM_INIT_FAILED
            (''Failed to initialize WASM module: '' @ errorMsg_of P e)
            (JObj [(''error'', JStr (errorMsg_of P e))]) rt'))"

text \<open>
  \<^verbatim>\<open>Object.keys(exports).filter(k => typeof exports[k] === 'function')\<close>
\<close>

definition is_function :: "'m export option \<Rightarrow> bool" where
  "is_function x = (case x of Some (ExFunction f) \<Rightarrow> True | _ \<Rightarrow> False)"

definition availableFunctions :: "(string \<times> 'm export) list \<Rightarrow> string list" where
  "availableFunctions ex = filter (\<lambda>k. is_function (map_of ex k)) (map fst ex)"

text \<open>
  The call \<^verbatim>\<open>fn(...args)\<close> of an exported function: it is recorded in \<open>invoked\<close>, runs on
  the instance's store and leaves the store as the function left it, also when it throws.
\<close>

definition invoke ::
  "string \<Rightarrow> (jsval list \<Rightarrow> 'm \<Rightarrow> (exn + jsval) \<times> 'm) \<Rightarrow> jsval list \<Rightarrow> 'm wasm_instance \<Rightarrow>
   'm runtime \<Rightarrow> (exn + jsval) \<times> 'm runtime" where
  "invoke name f args inst rt =
     (case f args (store inst) of
        (r, m') \<Rightarrow>
          (r, rt\<lparr>rt_instance := Some (inst\<lparr>store := m'\<rparr>),
                 invoked := invoked rt @ [(name, args)]\<rparr>))"

text \<open>The \<^verbatim>\<open>try\<close> block of \<open>handleCall\<close>, entered with the instance at hand.\<close>

definition handleCall_try ::
  "msg_id \<Rightarrow> string \<Rightarrow> jsval \<Rightarrow> 'm wasm_instance \<Rightarrow> 'm runtime \<Rightarrow> (exn + unit) \<times> 'm runtime" where
  "handleCall_try i fn payload inst rt =
     (case map_of (exports inst) fn of
        Some (ExFunction f) \<Rightarrow>
          (case (case payload of
                   JNull \<Rightarrow> invoke fn f [] inst rt
                 | JUndefined \<Rightarrow> invoke fn f [] inst rt
                 | JObj kvs \<Rightarrow> invoke fn f (Object_values kvs) inst rt
                 | JArr xs \<Rightarrow> invoke fn f xs inst rt
                 | v \<Rightarrow> invoke fn f [v] inst rt) of
             (Inl e, rt') \<Rightarrow> (Inl e, rt')
           | (Inr result, rt') \<Rightarrow> (Inr (), sendResult i result rt'))
      | _ \<Rightarrow>
          (Inr (),
           sendError i FN_NOT_FOUND
             (''Function '' @ [CHR 0x22] @ fn @ [CHR 0x22] @ '' not found in WASM module'')
             (JObj [(''availableFunctions'', JArr (map JStr (availableFunctions (exports inst))))])
             rt))"

definition handleCall ::
  "'m platform \<Rightarrow> msg_id \<Rightarrow> string \<Rightarrow> jsval \<Rightarrow> 'm runtime \<Rightarrow> (exn + unit) \<times> 'm runtime" where
  "handleCall P i fn payload rt =
     (case (if rt_initialized rt then rt_instance rt else None) of
        None \<Rightarrow>
          (Inr (), sendError i NOT_INITIALIZED ''Worker not initialized with WASM module''
                     JUndefined rt)
      | Some inst \<Rightarrow>
          try_catch (handleCall_try i fn payload inst rt)
            (\<lambda>e rt'. (Inr (),
               sendError i WASM_TRAP (''WASM execution error: '' @ errorMsg_of P e)
                 (JObj [(''function'', JStr fn), (''error'', JStr (errorMsg_of P e))]) rt')))"

text \<open>\<open>handleStreamOpen\<close>: the stub.\<close>

definition handleStreamOpen :: "msg_id \<Rightarrow> 'm runtime \<Rightarrow> (exn + unit) \<times> 'm runtime" where
  "handleStreamOpen i rt =
     (Inr (), sendError i UNKNOWN_ERROR ''Streaming not yet implemented'' JUndefined rt)"

text \<open>
  The worker's \<^verbatim>\<open>message\<close> listener. A result \<open>Inl e\<close> would be an exception that leaves
  the listener uncaught.
\<close>

fun on_message :: "'m platform \<Rightarrow> WorkerRequest \<Rightarrow> 'm runtime \<Rightarrow> (exn + unit) \<times> 'm runtime" where
  "on_message P (InitMsg i moduleUrl ini) rt = handleInit P i moduleUrl ini rt"
| "on_message P (CallMsg i fn payload) rt = handleCall P i fn payload rt"
| "on_message P (StreamOpenMsg i fn payload) rt = handleStreamOpen i rt"

section \<open>The Controller Bridge (bridge.ts)\<close>

subsection \<open>State\<close>

text \<open>
  An error value on the controller side: a plain \<^verbatim>\<open>new Error(message)\<close>, or the error
  built by \<open>createError\<close> (name \<^verbatim>\<open>WasmWorkerError\<close>) with its code, message and details.
\<close>

datatype js_error = PlainError string | WasmWorkerError ErrorCode string jsval

text \<open>
  Promises are numbered in the order of their creation. The callbacks kept in the
  registries are closures; each kind that the source builds is a constructor:
  the \<open>resolve\<close> and \<open>reject\<close> functions of a promise, the wrapper that \<open>init\<close>
  registers (\<^verbatim>\<open>() => { this.initialized = true; resolve(); }\<close>), and the empty function
  \<^verbatim>\<open>() => {}\<close> that \<open>stream\<close> starts with.
\<close>

datatype resolve_fn = ResolvePromise nat | ResolveInit nat | ResolveNoop

datatype reject_fn = RejectPromise nat | RejectNoop

text \<open>
  The fields of \<open>PendingRequest\<close> carry the prefix \<open>p_\<close>, those of \<open>StreamingRequest\<close> the
  prefix \<open>s_\<close>.
\<close>

record PendingRequest =
  p_resolve :: resolve_fn
  p_reject :: reject_fn

record StreamingRequest =
  s_queue :: "jsval list"
  s_resolve :: resolve_fn
  s_reject :: reject_fn
  s_done :: bool

text \<open>\<open>LoadOptions\<close>; its field \<open>init\<close> is \<open>init_config\<close> here.\<close>

record LoadOptions =
  moduleUrl :: string
  init_config :: jsval

record CallOptions =
  transfer :: "nat list option"

text \<open>
  The journal lists, in program order, the operations on the two registries, the
  messages handed to the worker's \<^verbatim>\<open>postMessage\<close> (with their transfer list), the calls
  of a promise's \<open>resolve\<close> or \<open>reject\<close> function, and the creation and termination of
  the worker.
\<close>

datatype action =
    NewWorker nat
  | TerminateWorker nat
  | PendingSet msg_id
  | PendingDelete msg_id
  | PendingClear
  | StreamingSet msg_id
  | StreamingDelete msg_id
  | StreamingClear
  | Post WorkerRequest "nat list"
  | CallResolve nat jsval
  | CallReject nat js_error

text \<open>
  What a consumer of the async generator returned by \<open>stream\<close> receives for one
  \<^verbatim>\<open>next()\<close>: a value, completion, or a rejection.
\<close>

datatype iter_result = IterValue jsval | IterDone | IterThrow js_error

text \<open>
  Where the body of one \<open>stream\<close> generator stands: not yet entered (holding its
  arguments); at the \<^verbatim>\<open>await\<close> of the loop, with the locals \<open>id\<close> and \<open>request\<close>, the
  promise awaited and the number of \<^verbatim>\<open>next()\<close> calls not yet answered; at the
  \<^verbatim>\<open>yield\<close>; or finished.
\<close>

datatype gen_state =
    SuspendedStart string jsval
  | Awaiting msg_id nat nat nat
  | SuspendedYield msg_id nat
  | Completed

record generator =
  g_state :: gen_state
  g_out :: "iter_result list"

text \<open>
  The fields of the \<open>WasmWorker\<close> object (\<open>worker\<close>, \<open>pendingRequests\<close>,
  \<open>streamingRequests\<close>, \<open>initialized\<close>) and what surrounds it: the \<open>reject\<close> captured by
  the worker's \<^verbatim>\<open>error\<close> listener, the \<open>StreamingRequest\<close> objects (shared by reference
  between the registry and the generator that made them), the generators, the source of
  identifiers behind \<open>generateId\<close> with the number of identifiers drawn, the number of
  promises created, and the journal.
\<close>

record world =
  worker :: "nat option"
  pendingRequests :: "msg_id \<rightharpoonup> PendingRequest"
  streamingRequests :: "msg_id \<rightharpoonup> nat"
  initialized :: bool
  error_listener :: "reject_fn option"
  objects :: "nat \<Rightarrow> StreamingRequest"
  objects_made :: nat
  generators :: "generator list"
  id_source :: "nat \<Rightarrow> msg_id"
  id_draws :: nat
  promises_made :: nat
  journal :: "action list"

text \<open>\<^verbatim>\<open>new WasmWorker()\<close>, in a world whose identifier source is \<open>src\<close>.\<close>

definition new_WasmWorker :: "(nat \<Rightarrow> msg_id) \<Rightarrow> world" where
  "new_WasmWorker src =
     \<lparr>worker = None, pendingRequests = Map.empty, streamingRequests = Map.empty,
      initialized = False, error_listener = None,
      objects = (\<lambda>_. \<lparr>s_queue = [], s_resolve = ResolveNoop, s_reject = RejectNoop,
                        s_done = False\<rparr>),
      objects_made = 0, generators = [], id_source = src, id_draws = 0,
      promises_made = 0, journal = []\<rparr>"

subsection \<open>Primitive operations\<close>

definition generateId :: "world \<Rightarrow> msg_id \<times> world" where
  "generateId w = (id_source w (id_draws w), w\<lparr>id_draws := Suc (id_draws w)\<rparr>)"

definition new_promise :: "world \<Rightarrow> nat \<times> world" where
  "new_promise w = (promises_made w, w\<lparr>promises_made := Suc (promises_made w)\<rparr>)"

definition record_action :: "action \<Rightarrow> world \<Rightarrow> world" where
  "record_action a w = w\<lparr>journal := journal w @ [a]\<rparr>"

definition pending_set :: "msg_id \<Rightarrow> PendingRequest \<Rightarrow> world \<Rightarrow> world" where
  "pending_set i e w =
     record_action (PendingSet i) (w\<lparr>pendingRequests := (pendingRequests w)(i \<mapsto> e)\<rparr>)"

definition pending_delete :: "msg_id \<Rightarrow> world \<Rightarrow> world" where
  "pending_delete i w =
     record_action (PendingDelete i) (w\<lparr>pendingRequests := (pendingRequests w)(i := None)\<rparr>)"

definition streaming_set :: "msg_id \<Rightarrow> nat \<Rightarrow> world \<Rightarrow> world" where
  "streaming_set i r w =
     record_action (StreamingSet i) (w\<lparr>streamingRequests := (streamingRequests w)(i \<mapsto> r)\<rparr>)"

definition streaming_delete :: "msg_id \<Rightarrow> world \<Rightarrow> world" where
  "streaming_delete i w =
     record_action (StreamingDelete i)
       (w\<lparr>streamingRequests := (streamingRequests w)(i := None)\<rparr>)"

definition postMessage :: "WorkerRequest \<Rightarrow> nat list \<Rightarrow> world \<Rightarrow> world" where
  "postMessage m xfer w = record_action (Post m xfer) w"

text \<open>Calling a stored \<open>resolve\<close> or \<open>reject\<close> callback.\<close>

definition call_resolve :: "resolve_fn \<Rightarrow> jsval \<Rightarrow> world \<Rightarrow> world" where
  "call_resolve r v w =
     (case r of
        ResolvePromise p \<Rightarrow> record_action (CallResolve p v) w
      | ResolveInit p \<Rightarrow> record_action (CallResolve p JUndefined) (w\<lparr>initialized := True\<rparr>)
      | ResolveNoop \<Rightarrow> w)"

definition call_reject :: "reject_fn \<Rightarrow> js_error \<Rightarrow> world \<Rightarrow> world" where
  "call_reject r e w =
     (case r of
        RejectPromise p \<Rightarrow> record_action (CallReject p e) w
      | RejectNoop \<Rightarrow> w)"

text \<open>
  A promise is settled by the first call of its \<open>resolve\<close> or \<open>reject\<close> function; later
  calls have no effect on it.
\<close>

datatype outcome = Fulfilled jsval | Rejected js_error

fun settlement :: "action \<Rightarrow> (nat \<times> outcome) option" where
  "settlement (CallResolve p v) = Some (p, Fulfilled v)"
| "settlement (CallReject p e) = Some (p, Rejected e)"
| "settlement _ = None"

definition promise_state :: "world \<Rightarrow> nat \<Rightarrow> outcome option" where
  "promise_state w p = map_of (List.map_filter settlement (journal w)) p"

text \<open>The messages posted to the worker so far.\<close>

fun posted_message :: "action \<Rightarrow> WorkerRequest option" where
  "posted_message (Post m xfer) = Some m"
| "posted_message _ = None"

definition posted :: "world \<Rightarrow> WorkerRequest list" where
  "posted w = List.map_filter posted_message (journal w)"

subsection \<open>init, load and the error listener\<close>

text \<open>
  \<open>init\<close> returns the promise it creates. \<open>spawn\<close> is what \<^verbatim>\<open>new Worker(...)\<close> does:
  it throws, or returns the handle of the new worker. \<open>S\<close> is \<^verbatim>\<open>String(v)\<close>. Of the
  statements in the \<^verbatim>\<open>try\<close> block the construction of the worker is the one that can
  throw here: the values posted are cloneable by their type.
\<close>

definition init :: "(jsval \<Rightarrow> string) \<Rightarrow> LoadOptions \<Rightarrow> exn + nat \<Rightarrow> world \<Rightarrow> nat \<times> world" where
  "init S options spawn w =
     (case new_promise w of
        (p, w0) \<Rightarrow>
          (case spawn of
             Inl e \<Rightarrow>
               (p, call_reject (RejectPromise p)
                     (PlainError (''Failed to create worker: '' @
                        (case e of JsError m \<Rightarrow> m | JsThrown v \<Rightarrow> S v))) w0)
           | Inr h \<Rightarrow>
               (case generateId
                       (record_action (NewWorker h)
                          (w0\<lparr>worker := Some h, error_listener := Some (RejectPromise p)\<rparr>)) of
                  (i, w1) \<Rightarrow>
                    (p, postMessage (InitMsg i (moduleUrl options) (init_config options)) []
                          (pending_set i
                             \<lparr>p_resolve = ResolveInit p, p_reject = RejectPromise p\<rparr> w1)))))"

definition load ::
  "(nat \<Rightarrow> msg_id) \<Rightarrow> (jsval \<Rightarrow> string) \<Rightarrow> LoadOptions \<Rightarrow> exn + nat \<Rightarrow> nat \<times> world" where
  "load src S options spawn = init S options spawn (new_WasmWorker src)"

text \<open>The worker's \<^verbatim>\<open>error\<close> listener, for an event with message \<open>m\<close>.\<close>

definition worker_error :: "string \<Rightarrow> world \<Rightarrow> world" where
  "worker_error m w =
     (case error_listener w of
        Some r \<Rightarrow> call_reject r (PlainError (''Worker error: '' @ m)) w
      | None \<Rightarrow> w)"

subsection \<open>handleMessage\<close>

definition createError :: "ErrorCode \<Rightarrow> string \<Rightarrow> jsval \<Rightarrow> js_error" where
  "createError c m d = WasmWorkerError c m d"

text \<open>The object \<^verbatim>\<open>{ value: v, done: d }\<close>.\<close>

definition IteratorResult :: "jsval \<Rightarrow> bool \<Rightarrow> jsval" where
  "IteratorResult v d = JObj [(''value'', v), (''done'', JBool d)]"

text \<open>
  The test \<^verbatim>\<open>if (streaming.resolve)\<close>: the field always holds a function, and a function
  is truthy.
\<close>

fun fn_truthy :: "resolve_fn \<Rightarrow> bool" where
  "fn_truthy (ResolvePromise p) = True"
| "fn_truthy (ResolveInit p) = True"
| "fn_truthy ResolveNoop = True"

definition update_object :: "nat \<Rightarrow> (StreamingRequest \<Rightarrow> StreamingRequest) \<Rightarrow> world \<Rightarrow> world" where
  "update_object r f w = w\<lparr>objects := (objects w)(r := f (objects w r))\<rparr>"

fun handleMessage :: "WorkerResponse \<Rightarrow> world \<Rightarrow> world" where
  "handleMessage ReadyMsg w = w"
| "handleMessage (ResultMsg i v) w =
     (case pendingRequests w i of
        Some pending \<Rightarrow> pending_delete i (call_resolve (p_resolve pending) v w)
      | None \<Rightarrow> w)"
| "handleMessage (ErrorMsg i err) w =
     (let pending = pendingRequests w i;
          streaming = streamingRequests w i;
          error = createError (code err) (message err) (details err);
          w1 = (case pending of
                  Some pr \<Rightarrow> pending_delete i (call_reject (p_reject pr) error w)
                | None \<Rightarrow> w)
      in (case streaming of
            Some r \<Rightarrow> streaming_delete i (call_reject (s_reject (objects w1 r)) error w1)
          | None \<Rightarrow> w1))"
| "handleMessage (StreamChunkMsg i v) w =
     (case streamingRequests w i of
        Some r \<Rightarrow>
          (let w1 = update_object r (\<lambda>q. q\<lparr>s_queue := s_queue q @ [v]\<rparr>) w in
           if fn_truthy (s_resolve (objects w1 r)) then
             call_resolve (s_resolve (objects w1 r))
               (IteratorResult (hd (s_queue (objects w1 r))) False)
               (update_object r (\<lambda>q. q\<lparr>s_queue := tl (s_queue q)\<rparr>) w1)
           else w1)
      | None \<Rightarrow> w)"
| "handleMessage (StreamCloseMsg i) w =
     (case streamingRequests w i of
        Some r \<Rightarrow>
          (let w1 = update_object r (\<lambda>q. q\<lparr>s_done := True\<rparr>) w;
               w2 = (if fn_truthy (s_resolve (objects w1 r))
                     then call_resolve (s_resolve (objects w1 r)) (IteratorResult JUndefined True) w1
                     else w1)
           in streaming_delete i w2)
      | None \<Rightarrow> w)"

subsection \<open>call and terminate\<close>

text \<open>\<^verbatim>\<open>options?.transfer || []\<close>\<close>

definition transfer_list :: "CallOptions option \<Rightarrow> nat list" where
  "transfer_list options =
     (case options of
        None \<Rightarrow> []
      | Some opts \<Rightarrow> (case transfer opts of None \<Rightarrow> [] | Some xs \<Rightarrow> xs))"

text \<open>
  \<open>call\<close> is an async function: a \<^verbatim>\<open>throw\<close> in its body rejects the promise it returns
  (\<open>Inl\<close> the error); otherwise the returned promise follows the one created in the body
  (\<open>Inr\<close> its number).
\<close>

definition call ::
  "string \<Rightarrow> jsval \<Rightarrow> CallOptions option \<Rightarrow> world \<Rightarrow> (js_error + nat) \<times> world" where
  "call fn payload options w =
     (if worker w = None then (Inl (PlainError ''Worker not initialized''), w)
      else if \<not> initialized w then (Inl (PlainError ''Worker not ready''), w)
      else
        (case new_promise w of
           (p, w0) \<Rightarrow>
             (case generateId w0 of
                (i, w1) \<Rightarrow>
                  (Inr p,
                   postMessage (CallMsg i fn payload) (transfer_list options)
                     (pending_set i
                        \<lparr>p_resolve = ResolvePromise p, p_reject = RejectPromise p\<rparr> w1)))))"

definition pending_clear :: "world \<Rightarrow> world" where
  "pending_clear w = record_action PendingClear (w\<lparr>pendingRequests := Map.empty\<rparr>)"

definition streaming_clear :: "world \<Rightarrow> world" where
  "streaming_clear w = record_action StreamingClear (w\<lparr>streamingRequests := Map.empty\<rparr>)"

definition terminate :: "world \<Rightarrow> world" where
  "terminate w =
     (case worker w of
        Some h \<Rightarrow>
          (let w1 = record_action (TerminateWorker h) w;
               w2 = w1\<lparr>worker := None\<rparr>;
               w3 = w2\<lparr>initialized := False\<rparr>;
               w4 = pending_clear w3
           in streaming_clear w4)
      | None \<Rightarrow> w)"

subsection \<open>stream\<close>

text \<open>
  Calling \<open>stream\<close> only creates the generator object; its body runs when the consumer
  calls \<^verbatim>\<open>next()\<close>. The functions below take the number \<open>k\<close> of the generator.
\<close>

definition stream :: "string \<Rightarrow> jsval \<Rightarrow> world \<Rightarrow> nat \<times> world" where
  "stream fn payload w =
     (length (generators w),
      w\<lparr>generators := generators w @ [\<lparr>g_state = SuspendedStart fn payload, g_out = []\<rparr>]\<rparr>)"

definition set_gen_state :: "nat \<Rightarrow> gen_state \<Rightarrow> world \<Rightarrow> world" where
  "set_gen_state k s w = w\<lparr>generators := (generators w)[k := (generators w ! k)\<lparr>g_state := s\<rparr>]\<rparr>"

definition emit :: "nat \<Rightarrow> iter_result list \<Rightarrow> world \<Rightarrow> world" where
  "emit k rs w =
     w\<lparr>generators :=
         (generators w)[k := (generators w ! k)\<lparr>g_out := g_out (generators w ! k) @ rs\<rparr>]\<rparr>"

text \<open>
  The generator ends while \<open>n\<close> calls of \<^verbatim>\<open>next()\<close> wait: the oldest receives \<open>r\<close>, the
  others completion.
\<close>

definition finish :: "nat \<Rightarrow> iter_result \<Rightarrow> nat \<Rightarrow> world \<Rightarrow> world" where
  "finish k r n w = emit k (r # replicate (n - 1) IterDone) (set_gen_state k Completed w)"

text \<open>
  The \<^verbatim>\<open>while\<close> loop inside \<^verbatim>\<open>try\<close>, run while \<open>n\<close> calls of \<^verbatim>\<open>next()\<close> wait for an
  answer. A \<^verbatim>\<open>yield\<close> answers the oldest of them and goes on if another one waits;
  with none waiting the generator stays at the \<^verbatim>\<open>yield\<close>. Leaving the loop runs the
  \<^verbatim>\<open>finally\<close> block.
\<close>

fun stream_loop :: "nat \<Rightarrow> nat \<Rightarrow> msg_id \<Rightarrow> nat \<Rightarrow> world \<Rightarrow> world" where
  "stream_loop 0 k i r w = set_gen_state k (SuspendedYield i r) w"
| "stream_loop (Suc n) k i r w =
     (if \<not> s_done (objects w r) \<or> length (s_queue (objects w r)) > 0 then
        if length (s_queue (objects w r)) > 0 then
          stream_loop n k i r
            (emit k [IterValue (hd (s_queue (objects w r)))]
               (update_object r (\<lambda>q. q\<lparr>s_queue := tl (s_queue q)\<rparr>) w))
        else
          (case new_promise w of
             (p, w1) \<Rightarrow>
               set_gen_state k (Awaiting i r p (Suc n))
                 (update_object r
                    (\<lambda>q. q\<lparr>s_resolve := ResolvePromise p, s_reject := RejectPromise p\<rparr>) w1))
      else finish k IterDone (Suc n) (streaming_delete i w))"

text \<open>The body up to the loop, entered by the first \<^verbatim>\<open>next()\<close>.\<close>

definition stream_body :: "nat \<Rightarrow> nat \<Rightarrow> string \<Rightarrow> jsval \<Rightarrow> world \<Rightarrow> world" where
  "stream_body n k fn payload w =
     (if worker w = None then finish k (IterThrow (PlainError ''Worker not initialized'')) n w
      else if \<not> initialized w then finish k (IterThrow (PlainError ''Worker not ready'')) n w
      else
        (case generateId w of
           (i, w1) \<Rightarrow>
             (let r = objects_made w1;
                  w2 = w1\<lparr>objects := (objects w1)
                             (r := \<lparr>s_queue = [], s_resolve = ResolveNoop,
                                    s_reject = RejectNoop, s_done = False\<rparr>),
                         objects_made := Suc r\<rparr>;
                  w3 = streaming_set i r w2;
                  w4 = postMessage (StreamOpenMsg i fn payload) [] w3
              in stream_loop n k i r w4)))"

text \<open>The consumer calls \<^verbatim>\<open>next()\<close> on generator \<open>k\<close>.\<close>

definition gen_next :: "nat \<Rightarrow> world \<Rightarrow> world" where
  "gen_next k w =
     (if k < length (generators w) then
        (case g_state (generators w ! k) of
           SuspendedStart fn payload \<Rightarrow> stream_body 1 k fn payload w
         | SuspendedYield i r \<Rightarrow> stream_loop 1 k i r w
         | Awaiting i r p n \<Rightarrow> set_gen_state k (Awaiting i r p (Suc n)) w
         | Completed \<Rightarrow> emit k [IterDone] w)
      else w)"

text \<open>
  After a listener has run, every generator whose awaited promise is settled goes on:
  into the next turn of the loop, or, on a rejection, through \<^verbatim>\<open>finally\<close> and out. The
  value the promise was fulfilled with is not used: the \<^verbatim>\<open>await\<close> of the loop is a
  statement of its own.
\<close>

definition resume :: "nat \<Rightarrow> world \<Rightarrow> world" where
  "resume k w =
     (case g_state (generators w ! k) of
        Awaiting i r p n \<Rightarrow>
          (case promise_state w p of
             None \<Rightarrow> w
           | Some (Fulfilled v) \<Rightarrow> stream_loop n k i r w
           | Some (Rejected e) \<Rightarrow> finish k (IterThrow e) n (streaming_delete i w))
      | _ \<Rightarrow> w)"

definition run_microtasks :: "world \<Rightarrow> world" where
  "run_microtasks w = fold resume [0..<length (generators w)] w"

subsection \<open>Runs of the controller\<close>

datatype event =
    Deliver WorkerResponse
  | WorkerError string
  | DoCall string jsval "CallOptions option"
  | DoStream string jsval
  | DoNext nat
  | DoTerminate

fun step :: "event \<Rightarrow> world \<Rightarrow> world" where
  "step (Deliver m) w = run_microtasks (handleMessage m w)"
| "step (WorkerError m) w = run_microtasks (worker_error m w)"
| "step (DoCall fn payload options) w = snd (call fn payload options w)"
| "step (DoStream fn payload) w = snd (stream fn payload w)"
| "step (DoNext k) w = gen_next k w"
| "step DoTerminate w = terminate w"

definition run :: "event list \<Rightarrow> world \<Rightarrow> world" where
  "run evs w = fold step evs w"

section \<open>Definitions used in the statements\<close>

text \<open>
  The argument list for a payload: none for an absent or null payload, the property
  values in the order of \<^verbatim>\<open>Object.values\<close> for an object, the elements for an array, the
  value itself for any other scalar.
\<close>

fun adapted_args :: "jsval \<Rightarrow> jsval list" where
  "adapted_args JUndefined = []"
| "adapted_args JNull = []"
| "adapted_args (JObj kvs) = Object_values kvs"
| "adapted_args (JArr xs) = xs"
| "adapted_args v = [v]"

text \<open>
  The argument list in the specification's words: as above, but the property values of
  an object in insertion order.
\<close>

fun insertion_order_args :: "jsval \<Rightarrow> jsval list" where
  "insertion_order_args JUndefined = []"
| "insertion_order_args JNull = []"
| "insertion_order_args (JObj kvs) = map snd kvs"
| "insertion_order_args (JArr xs) = xs"
| "insertion_order_args v = [v]"


fun response_id :: "WorkerResponse \<Rightarrow> msg_id option" where
  "response_id (ResultMsg i v) = Some i"
| "response_id (ErrorMsg i e) = Some i"
| "response_id (StreamChunkMsg i v) = Some i"
| "response_id (StreamCloseMsg i) = Some i"
| "response_id ReadyMsg = None"


subsection \<open>An example module\<close>

text \<open>
  A module in the manner of \<^verbatim>\<open>examples/rust-add\<close>: a memory and a few functions, one of
  which traps. Its store counts the calls made. The example platform serves it at
  \<^verbatim>\<open>/module.wasm\<close>, answers 404 for \<^verbatim>\<open>/missing.wasm\<close> and fails to connect anywhere else.
\<close>

definition example_add :: "jsval list \<Rightarrow> nat \<Rightarrow> (exn + jsval) \<times> nat" where
  "example_add args m =
     (case args of [JNum a, JNum b] \<Rightarrow> (Inr (JNum (a + b)), Suc m) | _ \<Rightarrow> (Inr (JNum 0), Suc m))"

definition example_double :: "jsval list \<Rightarrow> nat \<Rightarrow> (exn + jsval) \<times> nat" where
  "example_double args m =
     (case args of [JNum a] \<Rightarrow> (Inr (JNum (2 * a)), Suc m) | _ \<Rightarrow> (Inr (JNum 0), Suc m))"

definition example_subtract :: "jsval list \<Rightarrow> nat \<Rightarrow> (exn + jsval) \<times> nat" where
  "example_subtract args m =
     (case args of [JNum a, JNum b] \<Rightarrow> (Inr (JNum (a - b)), Suc m) | _ \<Rightarrow> (Inr (JNum 0), Suc m))"

definition example_f :: "jsval list \<Rightarrow> nat \<Rightarrow> (exn + jsval) \<times> nat" where
  "example_f args m = (Inr (JNum 42), Suc m)"

definition example_crash :: "jsval list \<Rightarrow> nat \<Rightarrow> (exn + jsval) \<times> nat" where
  "example_crash args m = (Inl (JsError ''unreachable''), Suc m)"

definition example_exports :: "(string \<times> nat export) list" where
  "example_exports =
     [(''memory'', ExMemory 0),
      (''add'', ExFunction example_add),
      (''double'', ExFunction example_double),
      (''f'', ExFunction example_f),
      (''crash'', ExFunction example_crash),
      (''subtract'', ExFunction example_subtract)]"

definition example_instance :: "nat wasm_instance" where
  "example_instance = \<lparr>exports = example_exports, store = 0\<rparr>"

definition example_platform :: "nat platform" where
  "example_platform =
     \<lparr>fetch = (\<lambda>url.
         if url = ''/module.wasm''
         then Inr \<lparr>ok = True, status = 200, statusText = ''OK'',
                   arrayBuffer = Inr [0, 97, 115, 109]\<rparr>
         else if url = ''/missing.wasm''
         then Inr \<lparr>ok = False, status = 404, statusText = ''Not Found'', arrayBuffer = Inr []\<rparr>
         else Inl (JsError ''Failed to fetch'')),
      compile = (\<lambda>b. if b = [0, 97, 115, 109] then Inr (WasmModule b)
                      else Inl (JsError ''expected magic word'')),
      instantiate = (\<lambda>m imports. Inr example_instance),
      js_String = (\<lambda>v. case v of JStr s \<Rightarrow> s | _ \<Rightarrow> ''[object Object]'')\<rparr>"

text \<open>The runtime after it has loaded the example module for the request \<^verbatim>\<open>init-1\<close>.\<close>

definition example_runtime :: "nat runtime" where
  "example_runtime =
     \<lparr>rt_instance = Some example_instance, rt_memory = Some 0, rt_initialized = True,
      outbox = [ReadyMsg, ResultMsg ''init-1'' (JObj [(''initialized'', JBool True)])],
      invoked = []\<rparr>"

subsection \<open>Definitions for the controller's statements\<close>

text \<open>
  \<open>follows w w'\<close>: from \<open>w\<close> to \<open>w'\<close> the identifier source is the same, identifiers were only
  drawn, and a registry holds no id that it did not hold before or that was not drawn in
  between.
\<close>

definition follows :: "world \<Rightarrow> world \<Rightarrow> bool" where
  "follows w w' \<longleftrightarrow>
     id_source w' = id_source w \<and> id_draws w \<le> id_draws w'
     \<and> dom (pendingRequests w') \<subseteq>
         dom (pendingRequests w) \<union> id_source w ` {id_draws w..<id_draws w'}
     \<and> dom (streamingRequests w') \<subseteq>
         dom (streamingRequests w) \<union> id_source w ` {id_draws w..<id_draws w'}"

text \<open>Without a worker the controller is not initialized and its registries are empty.\<close>

definition coherent :: "world \<Rightarrow> bool" where
  "coherent w \<longleftrightarrow>
     (worker w = None \<longrightarrow>
        \<not> initialized w \<and> pendingRequests w = Map.empty \<and> streamingRequests w = Map.empty)"

text \<open>Every registered id is one that the generator has handed out.\<close>

definition ids_drawn :: "world \<Rightarrow> bool" where
  "ids_drawn w \<longleftrightarrow>
     dom (pendingRequests w) \<union> dom (streamingRequests w) \<subseteq> id_source w ` {..<id_draws w}"

text \<open>No id is registered both as a unary request and as a stream.\<close>

definition registries_disjoint :: "world \<Rightarrow> bool" where
  "registries_disjoint w \<longleftrightarrow> dom (pendingRequests w) \<inter> dom (streamingRequests w) = {}"

text \<open>\<open>answers i m\<close>: the message \<open>m\<close> is a \<open>result\<close> or an \<open>error\<close> carrying the id \<open>i\<close>.\<close>

fun answers :: "msg_id \<Rightarrow> WorkerResponse \<Rightarrow> bool" where
  "answers i (ResultMsg j v) = (i = j)"
| "answers i (ErrorMsg j e) = (i = j)"
| "answers i _ = False"

text \<open>
  The callback call by which an answer settles the promise \<open>p\<close>: \<open>resolve\<close> with the value
  of a \<open>result\<close>, \<open>reject\<close> with the error built from an \<open>error\<close> message.
\<close>

fun settle_call :: "nat \<Rightarrow> WorkerResponse \<Rightarrow> action list" where
  "settle_call p (ResultMsg i v) = [CallResolve p v]"
| "settle_call p (ErrorMsg i e) = [CallReject p (createError (code e) (message e) (details e))]"
| "settle_call p _ = []"

text \<open>
  Example worlds. The identifiers are \<^verbatim>\<open>a\<close>, \<^verbatim>\<open>aa\<close>, \<^verbatim>\<open>aaa\<close>, ... in the order drawn.
  \<open>example_loading\<close> has sent \<open>init\<close> and waits; \<open>example_ready\<close> has received the result of
  \<open>init\<close>; \<open>example_calling\<close> has one call in flight; \<open>example_busy\<close> has a call in flight
  and a stream whose consumer is waiting for its first value.
\<close>

definition example_ids :: "nat \<Rightarrow> msg_id" where
  "example_ids n = replicate (Suc n) (CHR ''a'')"

definition example_options :: LoadOptions where
  "example_options = \<lparr>moduleUrl = ''/module.wasm'', init_config = JUndefined\<rparr>"

definition example_loading :: world where
  "example_loading = snd (load example_ids (js_String example_platform) example_options (Inr 0))"

definition example_ready :: world where
  "example_ready =
     step (Deliver (ResultMsg ''a'' (JObj [(''initialized'', JBool True)]))) example_loading"

definition example_busy :: world where
  "example_busy =
     run [DoCall ''add'' (JObj [(''a'', JNum 5), (''b'', JNum 3)]) None,
          DoStream ''numbers'' JUndefined, DoNext 0] example_ready"

definition example_calling :: world where
  "example_calling = snd (call ''add'' (JObj [(''a'', JNum 5), (''b'', JNum 3)]) None example_ready)"



text \<open>
  Every promise that a stored callback or a journal entry refers to has been created.
\<close>

fun resolve_below :: "nat \<Rightarrow> resolve_fn \<Rightarrow> bool" where
  "resolve_below n (ResolvePromise p) = (p < n)"
| "resolve_below n (ResolveInit p) = (p < n)"
| "resolve_below n ResolveNoop = True"

fun reject_below :: "nat \<Rightarrow> reject_fn \<Rightarrow> bool" where
  "reject_below n (RejectPromise p) = (p < n)"
| "reject_below n RejectNoop = True"

fun action_below :: "nat \<Rightarrow> action \<Rightarrow> bool" where
  "action_below n (CallResolve p v) = (p < n)"
| "action_below n (CallReject p e) = (p < n)"
| "action_below n _ = True"

definition promises_known :: "world \<Rightarrow> bool" where
  "promises_known w \<longleftrightarrow>
     (\<forall>i e. pendingRequests w i = Some e \<longrightarrow>
        resolve_below (promises_made w) (p_resolve e) \<and> reject_below (promises_made w) (p_reject e))
     \<and> (\<forall>r. resolve_below (promises_made w) (s_resolve (objects w r))
            \<and> reject_below (promises_made w) (s_reject (objects w r)))
     \<and> (\<forall>j. error_listener w = Some j \<longrightarrow> reject_below (promises_made w) j)
     \<and> (\<forall>a\<in>set (journal w). action_below (promises_made w) a)"


section \<open>The Execution Runtime: what handleCall and handleInit do\<close>

lemma is_function_iff: "is_function x \<longleftrightarrow> (\<exists>f. x = Some (ExFunction f))"
proof (cases x)
  case None
  then show ?thesis by (simp add: is_function_def)
next
  case (Some y)
  then show ?thesis by (cases y) (simp_all add: is_function_def)
qed

lemma Object_values_no_index:
  assumes "\<forall>k\<in>fst ` set kvs. array_index k = None"
  shows "Object_values kvs = map snd kvs"
proof -
  have a: "indexed_properties kvs = []"
    using assms by (induction kvs) (auto simp: indexed_properties_def List.map_filter_def)
  have b: "filter (\<lambda>(k, v). array_index k = None) kvs = kvs"
    using assms by (induction kvs) auto
  show ?thesis by (simp add: Object_values_def a b)
qed

lemma array_index_examples:
  "array_index ''a'' = None" "array_index ''b'' = None" "array_index ''1'' = Some 1"
  by (simp_all add: array_index_def digit_of_def)

lemma Object_values_examples:
  "Object_values [(''a'', JNum 5), (''b'', JNum 3)] = [JNum 5, JNum 3]"
  "Object_values [(''a'', JNum 1), (''b'', JNum 2)] = [JNum 1, JNum 2]"
  "Object_values [(''b'', JNum 3), (''1'', JNum 5)] = [JNum 5, JNum 3]"
  "Object_values [] = []"
  by (simp_all add: Object_values_def indexed_properties_def List.map_filter_def
      array_index_examples)

lemma handleCall_function:
  assumes "rt_initialized rt" and "rt_instance rt = Some inst"
    and "map_of (exports inst) fn = Some (ExFunction f)"
  shows "handleCall P i fn payload rt =
     (case f (adapted_args payload) (store inst) of
        (Inr v, m') \<Rightarrow>
          (Inr (), sendResult i v
             (rt\<lparr>rt_instance := Some (inst\<lparr>store := m'\<rparr>),
                  invoked := invoked rt @ [(fn, adapted_args payload)]\<rparr>))
      | (Inl e, m') \<Rightarrow>
          (Inr (), sendError i WASM_TRAP (''WASM execution error: '' @ errorMsg_of P e)
             (JObj [(''function'', JStr fn), (''error'', JStr (errorMsg_of P e))])
             (rt\<lparr>rt_instance := Some (inst\<lparr>store := m'\<rparr>),
                  invoked := invoked rt @ [(fn, adapted_args payload)]\<rparr>)))"
  using assms
  by (cases payload; cases "f (adapted_args payload) (store inst)")
     (auto simp: handleCall_def handleCall_try_def try_catch_def invoke_def split: sum.splits)

lemma handleCall_not_initialized:
  assumes "\<not> rt_initialized rt \<or> rt_instance rt = None"
  shows "handleCall P i fn payload rt =
     (Inr (), sendError i NOT_INITIALIZED ''Worker not initialized with WASM module'' JUndefined rt)"
  using assms by (auto simp: handleCall_def)

lemma handleCall_not_found:
  assumes "rt_initialized rt" and "rt_instance rt = Some inst"
    and "\<not> is_function (map_of (exports inst) fn)"
  shows "handleCall P i fn payload rt =
     (Inr (), sendError i FN_NOT_FOUND
        (''Function '' @ [CHR 0x22] @ fn @ [CHR 0x22] @ '' not found in WASM module'')
        (JObj [(''availableFunctions'', JArr (map JStr (availableFunctions (exports inst))))]) rt)"
  using assms
  by (auto simp: handleCall_def handleCall_try_def try_catch_def is_function_def
      split: option.splits export.splits)

lemma set_availableFunctions:
  "set (availableFunctions ex) = {k. is_function (map_of ex k)}"
proof -
  have "is_function (map_of ex k) \<Longrightarrow> k \<in> fst ` set ex" for k
    by (cases "map_of ex k") (auto simp: is_function_def dest: map_of_SomeD intro: rev_image_eqI)
  then show ?thesis
    by (auto simp: availableFunctions_def)
qed








text \<open>
  Claim C5, as stated, fails for an object payload with a key that is an array index. The
  caller builds the payload with the property \<^verbatim>\<open>b\<close> = 3 first and the property
  \<^verbatim>\<open>1\<close> = 5 second and calls \<^verbatim>\<open>subtract\<close>; \<open>call\<close> posts it, and \<open>handleCall\<close>
  invokes \<^verbatim>\<open>subtract(5, 3)\<close>, not \<^verbatim>\<open>subtract(3, 5)\<close> as insertion order would have it,
  and answers 2.
\<close>

theorem insertion_order_counterexample:
  "insertion_order_args (JObj [(''b'', JNum 3), (''1'', JNum 5)]) = [JNum 3, JNum 5]
   \<and> posted (snd (call ''subtract'' (JObj [(''b'', JNum 3), (''1'', JNum 5)]) None
                    example_ready))
       = [InitMsg ''a'' ''/module.wasm'' JUndefined,
          CallMsg ''aa'' ''subtract'' (JObj [(''b'', JNum 3), (''1'', JNum 5)])]
   \<and> invoked (snd (on_message example_platform
                     (CallMsg ''aa'' ''subtract'' (JObj [(''b'', JNum 3), (''1'', JNum 5)]))
                     example_runtime))
       = [(''subtract'', [JNum 5, JNum 3])]
   \<and> invoked (snd (on_message example_platform
                     (CallMsg ''aa'' ''subtract'' (JObj [(''b'', JNum 3), (''1'', JNum 5)]))
                     example_runtime))
       \<noteq> invoked example_runtime
          @ [(''subtract'', insertion_order_args (JObj [(''b'', JNum 3), (''1'', JNum 5)]))]
   \<and> outbox (snd (on_message example_platform
                     (CallMsg ''aa'' ''subtract'' (JObj [(''b'', JNum 3), (''1'', JNum 5)]))
                     example_runtime))
       = [ReadyMsg, ResultMsg ''init-1'' (JObj [(''initialized'', JBool True)]),
          ResultMsg ''aa'' (JNum 2)]"
proof -
  have a: "rt_initialized example_runtime"
    and b: "rt_instance example_runtime = Some example_instance"
    by (simp_all add: example_runtime_def)
  have s: "map_of (exports example_instance) ''subtract'' = Some (ExFunction example_subtract)"
    by (simp add: example_instance_def example_exports_def)
  have "handleCall example_platform ''aa'' ''subtract''
          (JObj [(''b'', JNum 3), (''1'', JNum 5)]) example_runtime =
        (Inr (), sendResult ''aa'' (JNum 2)
           (example_runtime\<lparr>rt_instance := Some (example_instance\<lparr>store := 1\<rparr>),
              invoked := invoked example_runtime @ [(''subtract'', [JNum 5, JNum 3])]\<rparr>))"
    using handleCall_function[OF a b s, of example_platform "''aa''"
        "JObj [(''b'', JNum 3), (''1'', JNum 5)]"]
    by (simp add: Object_values_examples example_subtract_def example_instance_def)
  moreover have "posted (snd (call ''subtract'' (JObj [(''b'', JNum 3), (''1'', JNum 5)]) None
                    example_ready))
       = [InitMsg ''a'' ''/module.wasm'' JUndefined,
          CallMsg ''aa'' ''subtract'' (JObj [(''b'', JNum 3), (''1'', JNum 5)])]"
    by (simp add: example_ready_def example_loading_def load_def init_def call_def
        new_promise_def generateId_def pending_set_def postMessage_def record_action_def
        call_resolve_def pending_delete_def run_microtasks_def new_WasmWorker_def
        example_ids_def example_options_def posted_def List.map_filter_def transfer_list_def)
  ultimately show ?thesis
    by (simp add: sendResult_def example_runtime_def)
qed

text \<open>
  Claim C5, amended. For an inbound \<open>call\<close> message on an initialized runtime whose named
  export is a function, \<open>handleCall\<close> invokes that function exactly once, with the
  arguments adapted from the payload: none for an absent or null payload; for a non-array
  object its property values in the order of \<^verbatim>\<open>Object.values\<close>, that is the values of
  the keys that are array indices first, ascending by their number, then the values of
  the other keys in insertion order (so plain insertion order when no key is an array
  index); the elements in order for an array; and the value itself for any other scalar.
  The message it sends is the result of that invocation (or the trap it raised).
\<close>

theorem handleCall_adapts_payload:
  assumes "rt_initialized rt" and "rt_instance rt = Some inst"
    and "map_of (exports inst) fn = Some (ExFunction f)"
  shows "invoked (snd (handleCall P i fn payload rt)) = invoked rt @ [(fn, adapted_args payload)]
    \<and> outbox (snd (handleCall P i fn payload rt)) =
        outbox rt @
        [case fst (f (adapted_args payload) (store inst)) of
           Inr v \<Rightarrow> ResultMsg i v
         | Inl e \<Rightarrow>
             ErrorMsg i
               \<lparr>code = WASM_TRAP, message = ''WASM execution error: '' @ errorMsg_of P e,
                details = JObj [(''function'', JStr fn), (''error'', JStr (errorMsg_of P e))]\<rparr>]
    \<and> ((\<forall>k\<in>fst ` set kvs. array_index k = None) \<longrightarrow>
          adapted_args (JObj kvs) = insertion_order_args (JObj kvs))
    \<and> adapted_args (JObj kvs) =
          map snd (sort_key fst (indexed_properties kvs))
          @ map snd (filter (\<lambda>(k, v). array_index k = None) kvs)
    \<and> (\<forall>v. (\<forall>kvs'. v \<noteq> JObj kvs') \<longrightarrow> adapted_args v = insertion_order_args v)"
proof -
  have c1: "invoked (snd (handleCall P i fn payload rt))
      = invoked rt @ [(fn, adapted_args payload)]"
    using handleCall_function[OF assms, of P i payload]
    by (auto simp: sendResult_def sendError_def split: prod.splits sum.splits)
  have c2: "outbox (snd (handleCall P i fn payload rt)) =
        outbox rt @
        [case fst (f (adapted_args payload) (store inst)) of
           Inr v \<Rightarrow> ResultMsg i v
         | Inl e \<Rightarrow>
             ErrorMsg i
               \<lparr>code = WASM_TRAP, message = ''WASM execution error: '' @ errorMsg_of P e,
                details = JObj [(''function'', JStr fn), (''error'', JStr (errorMsg_of P e))]\<rparr>]"
    using handleCall_function[OF assms, of P i payload]
    by (auto simp: sendResult_def sendError_def split: prod.splits sum.splits)
  have c3: "(\<forall>k\<in>fst ` set kvs. array_index k = None) \<longrightarrow>
          adapted_args (JObj kvs) = insertion_order_args (JObj kvs)"
    by (simp add: Object_values_no_index)
  have c4: "adapted_args (JObj kvs) =
          map snd (sort_key fst (indexed_properties kvs))
          @ map snd (filter (\<lambda>(k, v). array_index k = None) kvs)"
    by (simp add: Object_values_def)
  have c5: "\<forall>v. (\<forall>kvs'. v \<noteq> JObj kvs') \<longrightarrow> adapted_args v = insertion_order_args v"
  proof (intro allI impI)
    fix v assume "\<forall>kvs'. v \<noteq> JObj kvs'"
    then show "adapted_args v = insertion_order_args v" by (cases v) simp_all
  qed
  from c1 c2 c3 c4 c5 show ?thesis by blast
qed

theorem handleCall_adapts_payload_witness:
  "rt_initialized example_runtime \<and> rt_instance example_runtime = Some example_instance
   \<and> invoked (snd (handleCall example_platform ''c1'' ''add''
                     (JObj [(''a'', JNum 5), (''b'', JNum 3)]) example_runtime))
       = [(''add'', [JNum 5, JNum 3])]
   \<and> outbox (snd (handleCall example_platform ''c1'' ''add''
                     (JObj [(''a'', JNum 5), (''b'', JNum 3)]) example_runtime))
       = [ReadyMsg, ResultMsg ''init-1'' (JObj [(''initialized'', JBool True)]),
          ResultMsg ''c1'' (JNum 8)]
   \<and> invoked (snd (handleCall example_platform ''c2'' ''double'' (JNum 7) example_runtime))
       = [(''double'', [JNum 7])]
   \<and> invoked (snd (handleCall example_platform ''c3'' ''f'' JUndefined example_runtime))
       = [(''f'', [])]
   \<and> invoked (snd (handleCall example_platform ''c4'' ''add'' (JArr [JNum 1, JNum 2])
                     example_runtime))
       = [(''add'', [JNum 1, JNum 2])]
   \<and> invoked (snd (handleCall example_platform ''c5'' ''subtract''
                     (JObj [(''b'', JNum 3), (''1'', JNum 5)]) example_runtime))
       = [(''subtract'', [JNum 5, JNum 3])]
   \<and> adapted_args (JObj [(''a'', JNum 5), (''b'', JNum 3)])
       = insertion_order_args (JObj [(''a'', JNum 5), (''b'', JNum 3)])"
proof -
  have a: "rt_initialized example_runtime"
    and b: "rt_instance example_runtime = Some example_instance"
    by (simp_all add: example_runtime_def)
  have add: "map_of (exports example_instance) ''add'' = Some (ExFunction example_add)"
    and double: "map_of (exports example_instance) ''double'' = Some (ExFunction example_double)"
    and f: "map_of (exports example_instance) ''f'' = Some (ExFunction example_f)"
    and sub: "map_of (exports example_instance) ''subtract'' = Some (ExFunction example_subtract)"
    by (simp_all add: example_instance_def example_exports_def)
  have plain: "\<forall>k\<in>fst ` set [(''a'', JNum 5), (''b'', JNum 3)]. array_index k = None"
    by (simp add: array_index_examples)
  show ?thesis
    using a b
      handleCall_adapts_payload[OF a b add, of example_platform "''c1''"
        "JObj [(''a'', JNum 5), (''b'', JNum 3)]" "[(''a'', JNum 5), (''b'', JNum 3)]",
        THEN conjunct1]
      handleCall_adapts_payload[OF a b add, of example_platform "''c1''"
        "JObj [(''a'', JNum 5), (''b'', JNum 3)]" "[(''a'', JNum 5), (''b'', JNum 3)]",
        THEN conjunct2, THEN conjunct1]
      handleCall_adapts_payload[OF a b add, of example_platform "''c1''"
        "JObj [(''a'', JNum 5), (''b'', JNum 3)]" "[(''a'', JNum 5), (''b'', JNum 3)]",
        THEN conjunct2, THEN conjunct2, THEN conjunct1, THEN mp, OF plain]
      handleCall_adapts_payload[OF a b double, of example_platform "''c2''" "JNum 7" "[]",
        THEN conjunct1]
      handleCall_adapts_payload[OF a b f, of example_platform "''c3''" JUndefined "[]",
        THEN conjunct1]
      handleCall_adapts_payload[OF a b add, of example_platform "''c4''" "JArr [JNum 1, JNum 2]"
        "[]", THEN conjunct1]
      handleCall_adapts_payload[OF a b sub, of example_platform "''c5''"
        "JObj [(''b'', JNum 3), (''1'', JNum 5)]" "[]", THEN conjunct1]
    by (simp add: example_runtime_def example_instance_def example_add_def
        Object_values_examples del: insertion_order_args.simps)
qed

text \<open>
  Claim C6. If the runtime is not initialized (the flag is false or there is no
  instance), \<open>handleCall\<close> sends an \<open>error\<close> with code \<open>NOT_INITIALIZED\<close> for the call's id
  and invokes nothing. If it is initialized and the named export is not a function, it
  sends an \<open>error\<close> with code \<open>FN_NOT_FOUND\<close> whose details carry \<open>availableFunctions\<close>,
  the names of exactly the exports that are functions, and invokes nothing. In both cases
  nothing else of the runtime changes.
\<close>

theorem handleCall_rejects:
  "(\<not> rt_initialized rt \<or> rt_instance rt = None \<longrightarrow>
      handleCall P i fn payload rt =
        (Inr (),
         rt\<lparr>outbox := outbox rt @
            [ErrorMsg i \<lparr>code = NOT_INITIALIZED,
                         message = ''Worker not initialized with WASM module'',
                         details = JUndefined\<rparr>]\<rparr>))
   \<and> (rt_initialized rt \<and> rt_instance rt = Some inst
        \<and> \<not> is_function (map_of (exports inst) fn) \<longrightarrow>
      (\<exists>names.
         handleCall P i fn payload rt =
           (Inr (),
            rt\<lparr>outbox := outbox rt @
               [ErrorMsg i
                  \<lparr>code = FN_NOT_FOUND,
                   message = ''Function '' @ [CHR 0x22] @ fn @ [CHR 0x22] @
                             '' not found in WASM module'',
                   details = JObj [(''availableFunctions'', JArr (map JStr names))]\<rparr>]\<rparr>)
         \<and> set names = {k. \<exists>f. map_of (exports inst) k = Some (ExFunction f)}))"
proof (intro conjI impI)
  assume "\<not> rt_initialized rt \<or> rt_instance rt = None"
  then show "handleCall P i fn payload rt =
        (Inr (),
         rt\<lparr>outbox := outbox rt @
            [ErrorMsg i \<lparr>code = NOT_INITIALIZED,
                         message = ''Worker not initialized with WASM module'',
                         details = JUndefined\<rparr>]\<rparr>)"
    by (simp add: handleCall_not_initialized sendError_def)
next
  assume h: "rt_initialized rt \<and> rt_instance rt = Some inst
    \<and> \<not> is_function (map_of (exports inst) fn)"
  have "set (availableFunctions (exports inst)) =
          {k. \<exists>f. map_of (exports inst) k = Some (ExFunction f)}"
    by (simp add: set_availableFunctions is_function_iff)
  with h show "\<exists>names.
         handleCall P i fn payload rt =
           (Inr (),
            rt\<lparr>outbox := outbox rt @
               [ErrorMsg i
                  \<lparr>code = FN_NOT_FOUND,
                   message = ''Function '' @ [CHR 0x22] @ fn @ [CHR 0x22] @
                             '' not found in WASM module'',
                   details = JObj [(''availableFunctions'', JArr (map JStr names))]\<rparr>]\<rparr>)
         \<and> set names = {k. \<exists>f. map_of (exports inst) k = Some (ExFunction f)}"
    by (intro exI[of _ "availableFunctions (exports inst)"])
       (simp add: handleCall_not_found sendError_def)
qed

theorem handleCall_rejects_witness:
  "\<not> rt_initialized (runtime_start :: nat runtime)
   \<and> handleCall example_platform ''c1'' ''add'' (JObj [(''a'', JNum 1), (''b'', JNum 2)])
        runtime_start =
       (Inr (),
        runtime_start\<lparr>outbox :=
          [ReadyMsg,
           ErrorMsg ''c1'' \<lparr>code = NOT_INITIALIZED,
                           message = ''Worker not initialized with WASM module'',
                           details = JUndefined\<rparr>]\<rparr>)
   \<and> rt_initialized example_runtime \<and> rt_instance example_runtime = Some example_instance
   \<and> \<not> is_function (map_of (exports example_instance) ''missingFn'')
   \<and> (\<exists>names.
         handleCall example_platform ''c2'' ''missingFn'' (JObj []) example_runtime =
           (Inr (),
            example_runtime\<lparr>outbox := outbox example_runtime @
               [ErrorMsg ''c2''
                  \<lparr>code = FN_NOT_FOUND,
                   message = ''Function '' @ [CHR 0x22] @ ''missingFn'' @ [CHR 0x22] @
                             '' not found in WASM module'',
                   details = JObj [(''availableFunctions'', JArr (map JStr names))]\<rparr>]\<rparr>)
         \<and> set names = {k. \<exists>f. map_of (exports example_instance) k = Some (ExFunction f)})"
proof -
  have a: "\<not> rt_initialized (runtime_start :: nat runtime)"
    by (simp add: runtime_start_def)
  have b: "rt_initialized example_runtime \<and> rt_instance example_runtime = Some example_instance
     \<and> \<not> is_function (map_of (exports example_instance) ''missingFn'')"
    by (simp add: example_runtime_def example_instance_def example_exports_def is_function_def)
  from a have a': "\<not> rt_initialized (runtime_start :: nat runtime)
     \<or> rt_instance (runtime_start :: nat runtime) = None" ..
  show ?thesis
    using a b
      handleCall_rejects[of "runtime_start :: nat runtime" example_platform "''c1''" "''add''"
        "JObj [(''a'', JNum 1), (''b'', JNum 2)]" example_instance, THEN conjunct1, rule_format, OF a']
      handleCall_rejects[of example_runtime example_platform "''c2''" "''missingFn''"
        "JObj []" example_instance, THEN conjunct2, rule_format, OF b]
    by (simp add: runtime_start_def)
qed



text \<open>
  What \<open>handleInit\<close> does in each case: a response that is not ok is reported as
  \<open>MODULE_FETCH_FAILED\<close> with status and locator; a rejected \<^verbatim>\<open>fetch\<close> and a failed
  instantiation are both reported as \<open>WASM_INIT_FAILED\<close> with the failure message; in these
  cases the state is not written. On success the instance (and its memory) is recorded,
  \<open>initialized\<close> is set and the result \<^verbatim>\<open>{initialized: true}\<close> is sent.
\<close>

lemma handleInit_cases:
  "(fetch P u = Inl e \<longrightarrow>
      handleInit P i u c rt =
        (Inr (), sendError i WASM_INIT_FAILED
                   (''Failed to initialize WASM module: '' @ errorMsg_of P e)
                   (JObj [(''error'', JStr (errorMsg_of P e))]) rt))
   \<and> (fetch P u = Inr resp \<and> \<not> ok resp \<longrightarrow>
      handleInit P i u c rt =
        (Inr (), sendError i MODULE_FETCH_FAILED (''Failed to fetch module: '' @ statusText resp)
                   (JObj [(''status'', JNum (status resp)), (''url'', JStr u)]) rt))
   \<and> (fetch P u = Inr resp \<and> ok resp \<and> arrayBuffer resp = Inr buf \<and> compile P buf = Inr md
        \<and> instantiate P md (JObj [(''env'', if truthy c then c else JObj [])]) = Inl e \<longrightarrow>
      handleInit P i u c rt =
        (Inr (), sendError i WASM_INIT_FAILED
                   (''Failed to initialize WASM module: '' @ errorMsg_of P e)
                   (JObj [(''error'', JStr (errorMsg_of P e))]) rt))
   \<and> (fetch P u = Inr resp \<and> ok resp \<and> arrayBuffer resp = Inr buf \<and> compile P buf = Inr md
        \<and> instantiate P md (JObj [(''env'', if truthy c then c else JObj [])]) = Inr inst \<longrightarrow>
      handleInit P i u c rt =
        (Inr (), sendResult i (JObj [(''initialized'', JBool True)])
                   (rt\<lparr>rt_instance := Some inst,
                       rt_memory := (case map_of (exports inst) ''memory'' of
                                       Some (ExMemory mm) \<Rightarrow> Some mm
                                     | _ \<Rightarrow> rt_memory rt),
                       rt_initialized := True\<rparr>)))"
  by (auto simp: handleInit_def handleInit_try_def try_catch_def Let_def
      split: option.splits export.splits)

text \<open>
  Claim C8. \<open>handleInit\<close> on a locator that cannot be reached: \<^verbatim>\<open>fetch\<close> rejects, the
  rejection is caught by the \<^verbatim>\<open>catch\<close> block around the whole body, and the message
  sent carries the code \<open>WASM_INIT_FAILED\<close>, not \<open>MODULE_FETCH_FAILED\<close>, with neither
  status nor locator in its details. The runtime stays uninitialized. (The other parts
  of the claim hold: see \<open>handleInit_cases\<close>.)
\<close>

theorem handleInit_unreachable_locator:
  "fetch example_platform ''https://unreachable.invalid/module.wasm''
     = Inl (JsError ''Failed to fetch'')
   \<and> handleInit example_platform ''init-1'' ''https://unreachable.invalid/module.wasm''
        JUndefined runtime_start =
       (Inr (),
        runtime_start\<lparr>outbox :=
          [ReadyMsg,
           ErrorMsg ''init-1''
             \<lparr>code = WASM_INIT_FAILED,
              message = ''Failed to initialize WASM module: Failed to fetch'',
              details = JObj [(''error'', JStr ''Failed to fetch'')]\<rparr>]\<rparr>)"
  by (simp add: handleInit_def handleInit_try_def try_catch_def example_platform_def
      sendError_def errorMsg_of_def runtime_start_def)

section \<open>The Controller Bridge: what the operations do\<close>

lemma record_action_fields [simp]:
  "worker (record_action a w) = worker w"
  "pendingRequests (record_action a w) = pendingRequests w"
  "streamingRequests (record_action a w) = streamingRequests w"
  "initialized (record_action a w) = initialized w"
  "error_listener (record_action a w) = error_listener w"
  "objects (record_action a w) = objects w"
  "objects_made (record_action a w) = objects_made w"
  "generators (record_action a w) = generators w"
  "id_source (record_action a w) = id_source w"
  "id_draws (record_action a w) = id_draws w"
  "promises_made (record_action a w) = promises_made w"
  "journal (record_action a w) = journal w @ [a]"
  by (simp_all add: record_action_def)

theorem call_before_ready:
  assumes "worker w = None \<or> \<not> initialized w"
  shows "call fn payload options w =
     (Inl (PlainError (if worker w = None then ''Worker not initialized'' else ''Worker not ready'')), w)"
  using assms by (auto simp: call_def)

lemma call_ready:
  assumes "worker w \<noteq> None" "initialized w"
  shows "call fn payload options w =
     (Inr (promises_made w),
      w\<lparr>pendingRequests := (pendingRequests w)(id_source w (id_draws w) \<mapsto>
            \<lparr>p_resolve = ResolvePromise (promises_made w), p_reject = RejectPromise (promises_made w)\<rparr>),
        id_draws := Suc (id_draws w),
        promises_made := Suc (promises_made w),
        journal := journal w @ [PendingSet (id_source w (id_draws w)),
                                Post (CallMsg (id_source w (id_draws w)) fn payload) (transfer_list options)]\<rparr>)"
  using assms
  by (simp add: call_def new_promise_def generateId_def pending_set_def postMessage_def record_action_def)

lemma init_spawned:
  "init S options (Inr h) w =
     (promises_made w,
      w\<lparr>worker := Some h,
        pendingRequests := (pendingRequests w)(id_source w (id_draws w) \<mapsto>
            \<lparr>p_resolve = ResolveInit (promises_made w), p_reject = RejectPromise (promises_made w)\<rparr>),
        error_listener := Some (RejectPromise (promises_made w)),
        id_draws := Suc (id_draws w),
        promises_made := Suc (promises_made w),
        journal := journal w @ [NewWorker h, PendingSet (id_source w (id_draws w)),
                                Post (InitMsg (id_source w (id_draws w)) (moduleUrl options) (init_config options)) []]\<rparr>)"
  by (simp add: init_def new_promise_def generateId_def pending_set_def postMessage_def record_action_def)

lemma stream_body_ready:
  assumes "worker w \<noteq> None" "initialized w"
  shows "stream_body (Suc n) k fn payload w =
     set_gen_state k (Awaiting (id_source w (id_draws w)) (objects_made w) (promises_made w) (Suc n))
     (w\<lparr>streamingRequests := (streamingRequests w)(id_source w (id_draws w) \<mapsto> objects_made w),
        objects := (objects w)(objects_made w :=
           \<lparr>s_queue = [], s_resolve = ResolvePromise (promises_made w),
            s_reject = RejectPromise (promises_made w), s_done = False\<rparr>),
        objects_made := Suc (objects_made w),
        id_draws := Suc (id_draws w),
        promises_made := Suc (promises_made w),
        journal := journal w @ [StreamingSet (id_source w (id_draws w)),
                                Post (StreamOpenMsg (id_source w (id_draws w)) fn payload) []]\<rparr>)"
  using assms
  by (auto simp: stream_body_def new_promise_def generateId_def streaming_set_def postMessage_def
      record_action_def update_object_def set_gen_state_def Let_def)

lemma terminate_worker:
  assumes "worker w = Some h"
  shows "terminate w =
     w\<lparr>worker := None, pendingRequests := Map.empty, streamingRequests := Map.empty,
       initialized := False,
       journal := journal w @ [TerminateWorker h, PendingClear, StreamingClear]\<rparr>"
  using assms
  by (simp add: terminate_def pending_clear_def streaming_clear_def record_action_def Let_def)

lemma terminate_no_worker: "worker w = None \<Longrightarrow> terminate w = w"
  by (simp add: terminate_def)

lemmas prim_defs =
  record_action_def set_gen_state_def emit_def update_object_def finish_def
  streaming_delete_def pending_delete_def new_promise_def generateId_def pending_set_def
  streaming_set_def postMessage_def call_resolve_def call_reject_def

lemma stream_loop_frame:
  "worker (stream_loop n k i r w) = worker w
   \<and> initialized (stream_loop n k i r w) = initialized w
   \<and> pendingRequests (stream_loop n k i r w) = pendingRequests w
   \<and> id_source (stream_loop n k i r w) = id_source w
   \<and> id_draws (stream_loop n k i r w) = id_draws w
   \<and> error_listener (stream_loop n k i r w) = error_listener w
   \<and> dom (streamingRequests (stream_loop n k i r w)) \<subseteq> dom (streamingRequests w)"
proof (induction n arbitrary: w)
  case 0
  then show ?case by (simp add: prim_defs)
next
  case (Suc n)
  show ?case
  proof (cases "s_queue (objects w r) = []")
    case True
    then show ?thesis by (auto simp: prim_defs split: if_splits)
  next
    case False
    then show ?thesis
      using Suc.IH[of "emit k [IterValue (hd (s_queue (objects w r)))]
               (update_object r (\<lambda>q. q\<lparr>s_queue := tl (s_queue q)\<rparr>) w)"]
      by (simp add: prim_defs)
  qed
qed

lemma resume_frame:
  "worker (resume k w) = worker w
   \<and> initialized (resume k w) = initialized w
   \<and> pendingRequests (resume k w) = pendingRequests w
   \<and> id_source (resume k w) = id_source w
   \<and> id_draws (resume k w) = id_draws w
   \<and> error_listener (resume k w) = error_listener w
   \<and> dom (streamingRequests (resume k w)) \<subseteq> dom (streamingRequests w)"
proof (cases "g_state (generators w ! k)")
  case (Awaiting i r p n)
  show ?thesis
  proof (cases "promise_state w p")
    case None
    with Awaiting show ?thesis by (simp add: resume_def)
  next
    case (Some out)
    show ?thesis
    proof (cases out)
      case (Fulfilled v)
      with Awaiting Some show ?thesis
        using stream_loop_frame[of n k i r w] by (simp add: resume_def)
    next
      case (Rejected e)
      with Awaiting Some show ?thesis by (auto simp: resume_def prim_defs split: if_splits)
    qed
  qed
qed (simp_all add: resume_def)

lemma fold_resume_frame:
  "worker (fold resume ks w) = worker w
   \<and> initialized (fold resume ks w) = initialized w
   \<and> pendingRequests (fold resume ks w) = pendingRequests w
   \<and> id_source (fold resume ks w) = id_source w
   \<and> id_draws (fold resume ks w) = id_draws w
   \<and> error_listener (fold resume ks w) = error_listener w
   \<and> dom (streamingRequests (fold resume ks w)) \<subseteq> dom (streamingRequests w)"
proof (induction ks arbitrary: w)
  case Nil
  then show ?case by simp
next
  case (Cons k ks)
  show ?case using Cons.IH[of "resume k w"] resume_frame[of k w] by auto
qed

lemma run_microtasks_frame:
  "worker (run_microtasks w) = worker w
   \<and> initialized (run_microtasks w) = initialized w
   \<and> pendingRequests (run_microtasks w) = pendingRequests w
   \<and> id_source (run_microtasks w) = id_source w
   \<and> id_draws (run_microtasks w) = id_draws w
   \<and> error_listener (run_microtasks w) = error_listener w
   \<and> dom (streamingRequests (run_microtasks w)) \<subseteq> dom (streamingRequests w)"
  unfolding run_microtasks_def by (rule fold_resume_frame)

lemma handleMessage_frame:
  "worker (handleMessage m w) = worker w
   \<and> id_source (handleMessage m w) = id_source w
   \<and> id_draws (handleMessage m w) = id_draws w
   \<and> error_listener (handleMessage m w) = error_listener w
   \<and> dom (pendingRequests (handleMessage m w)) \<subseteq> dom (pendingRequests w)
   \<and> dom (streamingRequests (handleMessage m w)) \<subseteq> dom (streamingRequests w)
   \<and> (initialized (handleMessage m w) \<longrightarrow>
        initialized w \<or> pendingRequests w \<noteq> Map.empty \<or> streamingRequests w \<noteq> Map.empty)"
proof (cases m)
  case (ResultMsg i v)
  then show ?thesis
    by (cases "pendingRequests w i"; cases "p_resolve (the (pendingRequests w i))")
       (auto simp: prim_defs split: if_splits)
next
  case (ErrorMsg i err)
  then show ?thesis
    by (cases "pendingRequests w i"; cases "streamingRequests w i";
        cases "p_reject (the (pendingRequests w i))";
        cases "s_reject (objects w (the (streamingRequests w i)))")
       (auto simp: prim_defs Let_def split: if_splits)
next
  case (StreamChunkMsg i v)
  then show ?thesis
    by (cases "streamingRequests w i"; cases "s_resolve (objects w (the (streamingRequests w i)))")
       (auto simp: prim_defs Let_def split: if_splits)
next
  case (StreamCloseMsg i)
  then show ?thesis
    by (cases "streamingRequests w i"; cases "s_resolve (objects w (the (streamingRequests w i)))")
       (auto simp: prim_defs Let_def split: if_splits)
next
  case ReadyMsg
  then show ?thesis by simp
qed

lemma stream_body_frame:
  "worker (stream_body n k fn payload w) = worker w
   \<and> initialized (stream_body n k fn payload w) = initialized w
   \<and> pendingRequests (stream_body n k fn payload w) = pendingRequests w
   \<and> id_source (stream_body n k fn payload w) = id_source w
   \<and> error_listener (stream_body n k fn payload w) = error_listener w
   \<and> (worker w = None \<longrightarrow>
        id_draws (stream_body n k fn payload w) = id_draws w
        \<and> streamingRequests (stream_body n k fn payload w) = streamingRequests w)
   \<and> (worker w \<noteq> None \<longrightarrow>
        id_draws w \<le> id_draws (stream_body n k fn payload w)
        \<and> id_draws (stream_body n k fn payload w) \<le> Suc (id_draws w)
        \<and> dom (streamingRequests (stream_body n k fn payload w)) \<subseteq>
            dom (streamingRequests w) \<union>
            id_source w ` {id_draws w..<id_draws (stream_body n k fn payload w)})"
proof (cases "worker w = None \<or> \<not> initialized w")
  case True
  then show ?thesis by (auto simp: stream_body_def prim_defs)
next
  case False
  let ?i = "id_source w (id_draws w)"
  let ?r = "objects_made w"
  let ?w4 = "postMessage (StreamOpenMsg ?i fn payload) []
     (streaming_set ?i ?r
        (w\<lparr>id_draws := Suc (id_draws w),
           objects := (objects w)(?r := \<lparr>s_queue = [], s_resolve = ResolveNoop,
                                         s_reject = RejectNoop, s_done = False\<rparr>),
           objects_made := Suc ?r\<rparr>))"
  have eq: "stream_body n k fn payload w = stream_loop n k ?i ?r ?w4"
    using False by (auto simp: stream_body_def generateId_def Let_def)
  have "{id_draws w..<Suc (id_draws w)} = {id_draws w}" by auto
  then show ?thesis
    using False stream_loop_frame[of n k ?i ?r ?w4] unfolding eq
    by (auto simp: prim_defs split: if_splits)
qed

lemma gen_next_frame:
  "worker (gen_next k w) = worker w
   \<and> initialized (gen_next k w) = initialized w
   \<and> pendingRequests (gen_next k w) = pendingRequests w
   \<and> id_source (gen_next k w) = id_source w
   \<and> error_listener (gen_next k w) = error_listener w
   \<and> id_draws w \<le> id_draws (gen_next k w)
   \<and> (worker w = None \<longrightarrow> dom (streamingRequests (gen_next k w)) \<subseteq> dom (streamingRequests w))
   \<and> dom (streamingRequests (gen_next k w)) \<subseteq>
       dom (streamingRequests w) \<union> id_source w ` {id_draws w..<id_draws (gen_next k w)}"
proof (cases "k < length (generators w)")
  case False
  then show ?thesis by (simp add: gen_next_def)
next
  case True
  show ?thesis
  proof (cases "g_state (generators w ! k)")
    case (SuspendedStart fn payload)
    with True show ?thesis
      using stream_body_frame[of 1 k fn payload w]
      by (cases "worker w = None") (auto simp: gen_next_def)
  next
    case (Awaiting i r p n)
    with True show ?thesis by (simp add: gen_next_def prim_defs)
  next
    case (SuspendedYield i r)
    with True show ?thesis
      using stream_loop_frame[of 1 k i r w] by (auto simp: gen_next_def)
  next
    case Completed
    with True show ?thesis by (simp add: gen_next_def prim_defs)
  qed
qed

lemma follows_refl: "follows w w"
  by (simp add: follows_def)

lemma subset_chain:
  "P3 \<subseteq> P2 \<union> B \<Longrightarrow> P2 \<subseteq> P1 \<union> A \<Longrightarrow> A \<subseteq> C \<Longrightarrow> B \<subseteq> C \<Longrightarrow> P3 \<subseteq> P1 \<union> C"
  by blast

lemma follows_trans:
  assumes "follows w1 w2" and "follows w2 w3"
  shows "follows w1 w3"
proof -
  let ?src = "id_source w1"
  have src: "id_source w2 = ?src" "id_source w3 = ?src"
    and le: "id_draws w1 \<le> id_draws w2" "id_draws w2 \<le> id_draws w3"
    using assms by (simp_all add: follows_def)
  have m1: "?src ` {id_draws w1..<id_draws w2} \<subseteq> ?src ` {id_draws w1..<id_draws w3}"
    using le by (intro image_mono) simp
  have m2: "?src ` {id_draws w2..<id_draws w3} \<subseteq> ?src ` {id_draws w1..<id_draws w3}"
    using le by (intro image_mono) simp
  have p1: "dom (pendingRequests w2) \<subseteq>
      dom (pendingRequests w1) \<union> ?src ` {id_draws w1..<id_draws w2}"
    and q1: "dom (streamingRequests w2) \<subseteq>
      dom (streamingRequests w1) \<union> ?src ` {id_draws w1..<id_draws w2}"
    using assms(1) by (simp_all add: follows_def)
  have p2: "dom (pendingRequests w3) \<subseteq>
      dom (pendingRequests w2) \<union> ?src ` {id_draws w2..<id_draws w3}"
    and q2: "dom (streamingRequests w3) \<subseteq>
      dom (streamingRequests w2) \<union> ?src ` {id_draws w2..<id_draws w3}"
    using assms(2) src by (simp_all add: follows_def)
  have "dom (pendingRequests w3) \<subseteq>
      dom (pendingRequests w1) \<union> ?src ` {id_draws w1..<id_draws w3}"
    by (rule subset_chain[OF p2 p1 m1 m2])
  moreover have "dom (streamingRequests w3) \<subseteq>
      dom (streamingRequests w1) \<union> ?src ` {id_draws w1..<id_draws w3}"
    by (rule subset_chain[OF q2 q1 m1 m2])
  ultimately show ?thesis
    using src le by (simp add: follows_def)
qed

lemma follows_same:
  assumes "id_source w' = id_source w" and "id_draws w' = id_draws w"
    and "dom (pendingRequests w') \<subseteq> dom (pendingRequests w)"
    and "dom (streamingRequests w') \<subseteq> dom (streamingRequests w)"
  shows "follows w w'"
  using assms by (auto simp: follows_def)

lemma call_frame:
  "worker (snd (call fn payload options w)) = worker w
   \<and> initialized (snd (call fn payload options w)) = initialized w
   \<and> streamingRequests (snd (call fn payload options w)) = streamingRequests w
   \<and> error_listener (snd (call fn payload options w)) = error_listener w
   \<and> (worker w = None \<longrightarrow> snd (call fn payload options w) = w)
   \<and> follows w (snd (call fn payload options w))"
proof (cases "worker w = None \<or> \<not> initialized w")
  case True
  then show ?thesis by (auto simp: call_before_ready follows_refl)
next
  case False
  have "{id_draws w..<Suc (id_draws w)} = {id_draws w}" by auto
  with False show ?thesis by (auto simp: call_ready follows_def)
qed

lemma step_follows: "follows w (step e w)"
proof (cases e)
  case (Deliver m)
  have "follows w (handleMessage m w)"
    using handleMessage_frame[of m w] by (intro follows_same) simp_all
  moreover have "follows (handleMessage m w) (run_microtasks (handleMessage m w))"
    using run_microtasks_frame[of "handleMessage m w"] by (intro follows_same) simp_all
  ultimately show ?thesis using Deliver by (auto intro: follows_trans)
next
  case (WorkerError m)
  have "follows w (worker_error m w)"
    by (intro follows_same) (simp_all add: worker_error_def prim_defs split: option.splits reject_fn.splits)
  moreover have "follows (worker_error m w) (run_microtasks (worker_error m w))"
    using run_microtasks_frame[of "worker_error m w"] by (intro follows_same) simp_all
  ultimately show ?thesis using WorkerError by (auto intro: follows_trans)
next
  case (DoCall fn payload options)
  then show ?thesis using call_frame[of fn payload options w] by simp
next
  case (DoStream fn payload)
  then show ?thesis by (simp add: stream_def follows_def)
next
  case (DoNext k)
  then show ?thesis using gen_next_frame[of k w] by (simp add: follows_def)
next
  case DoTerminate
  then show ?thesis by (cases "worker w") (simp_all add: terminate_worker terminate_no_worker follows_def)
qed

lemma run_follows: "follows w (run evs w)"
proof (induction evs arbitrary: w)
  case Nil
  then show ?case by (simp add: run_def follows_refl)
next
  case (Cons e evs)
  have "run (e # evs) w = run evs (step e w)" by (simp add: run_def)
  then show ?case using Cons.IH[of "step e w"] step_follows[of w e] by (auto intro: follows_trans)
qed

lemma step_coherent:
  assumes "coherent w"
  shows "coherent (step e w)"
proof (cases "worker w = None")
  case False
  have "worker (step e w) \<noteq> None" if "e \<noteq> DoTerminate"
  proof (cases e)
    case (Deliver m)
    then show ?thesis
      using False handleMessage_frame[of m w] run_microtasks_frame[of "handleMessage m w"] by simp
  next
    case (WorkerError m)
    have "worker (worker_error m w) = worker w"
      by (simp add: worker_error_def prim_defs split: option.splits reject_fn.splits)
    then show ?thesis
      using WorkerError False run_microtasks_frame[of "worker_error m w"] by simp
  next
    case (DoCall fn payload options)
    then show ?thesis using False call_frame[of fn payload options w] by simp
  next
    case (DoStream fn payload)
    then show ?thesis using False by (simp add: stream_def)
  next
    case (DoNext k)
    then show ?thesis using False gen_next_frame[of k w] by simp
  next
    case DoTerminate
    then show ?thesis using that by simp
  qed
  moreover have "coherent (terminate w)"
    using False by (auto simp: terminate_worker coherent_def)
  ultimately show ?thesis by (cases "e = DoTerminate") (auto simp: coherent_def)
next
  case True
  with assms have empty: "\<not> initialized w" "pendingRequests w = Map.empty"
    "streamingRequests w = Map.empty"
    by (simp_all add: coherent_def)
  show ?thesis
  proof (cases e)
    case (Deliver m)
    have "handleMessage m w = w"
      using empty by (cases m) simp_all
    then show ?thesis
      using Deliver True empty run_microtasks_frame[of w] by (simp add: coherent_def)
  next
    case (WorkerError m)
    have a: "worker (worker_error m w) = None" "\<not> initialized (worker_error m w)"
      "pendingRequests (worker_error m w) = Map.empty"
      "streamingRequests (worker_error m w) = Map.empty"
      using True empty
      by (simp_all add: worker_error_def prim_defs split: option.splits reject_fn.splits)
    show ?thesis
      using WorkerError a run_microtasks_frame[of "worker_error m w"] by (simp add: coherent_def)
  next
    case (DoCall fn payload options)
    then show ?thesis using assms True call_frame[of fn payload options w] by simp
  next
    case (DoStream fn payload)
    then show ?thesis using assms by (simp add: stream_def coherent_def)
  next
    case (DoNext k)
    then show ?thesis using True empty gen_next_frame[of k w] by (simp add: coherent_def)
  next
    case DoTerminate
    then show ?thesis using assms True by (simp add: terminate_no_worker)
  qed
qed

lemma run_coherent: "coherent w \<Longrightarrow> coherent (run evs w)"
proof (induction evs arbitrary: w)
  case Nil
  then show ?case by (simp add: run_def)
next
  case (Cons e evs)
  have "run (e # evs) w = run evs (step e w)" by (simp add: run_def)
  then show ?case using Cons.IH[of "step e w"] step_coherent[OF Cons.prems] by simp
qed

lemma load_coherent: "coherent (snd (load src S options spawn))"
  by (cases spawn)
     (simp_all add: load_def init_def new_WasmWorker_def prim_defs coherent_def)

lemma init_follows: "follows w (snd (init S options spawn w))"
proof (cases spawn)
  case (Inl e)
  then show ?thesis by (simp add: init_def prim_defs follows_def)
next
  case (Inr h)
  have "{id_draws w..<Suc (id_draws w)} = {id_draws w}" by auto
  with Inr show ?thesis by (auto simp: init_spawned follows_def)
qed

lemma subsets_into:
  "P' \<subseteq> P \<union> N \<Longrightarrow> S' \<subseteq> S \<union> N \<Longrightarrow> P \<union> S \<subseteq> A \<Longrightarrow> A \<subseteq> B \<Longrightarrow> N \<subseteq> B
   \<Longrightarrow> P' \<union> S' \<subseteq> B"
  by blast

lemma follows_ids_drawn:
  assumes "follows w w'" and "ids_drawn w"
  shows "ids_drawn w'"
proof -
  have le: "id_draws w \<le> id_draws w'" and src: "id_source w' = id_source w"
    using assms(1) by (simp_all add: follows_def)
  have a: "id_source w ` {..<id_draws w} \<subseteq> id_source w ` {..<id_draws w'}"
    using le by (intro image_mono) simp
  have n: "id_source w ` {id_draws w..<id_draws w'} \<subseteq> id_source w ` {..<id_draws w'}"
    by (intro image_mono) auto
  have old: "dom (pendingRequests w) \<union> dom (streamingRequests w)
      \<subseteq> id_source w ` {..<id_draws w}"
    using assms(2) by (simp add: ids_drawn_def)
  have p: "dom (pendingRequests w') \<subseteq>
      dom (pendingRequests w) \<union> id_source w ` {id_draws w..<id_draws w'}"
    and q: "dom (streamingRequests w') \<subseteq>
      dom (streamingRequests w) \<union> id_source w ` {id_draws w..<id_draws w'}"
    using assms(1) by (simp_all add: follows_def)
  show ?thesis
    unfolding ids_drawn_def src by (rule subsets_into[OF p q old a n])
qed

lemma step_one_sided:
  "dom (pendingRequests (step e w)) \<subseteq> dom (pendingRequests w)
   \<or> dom (streamingRequests (step e w)) \<subseteq> dom (streamingRequests w)"
proof (cases e)
  case (Deliver m)
  then show ?thesis
    using handleMessage_frame[of m w] run_microtasks_frame[of "handleMessage m w"] by simp
next
  case (WorkerError m)
  have "pendingRequests (worker_error m w) = pendingRequests w"
    by (simp add: worker_error_def prim_defs split: option.splits reject_fn.splits)
  then show ?thesis
    using WorkerError run_microtasks_frame[of "worker_error m w"] by simp
next
  case (DoCall fn payload options)
  then show ?thesis using call_frame[of fn payload options w] by simp
next
  case (DoStream fn payload)
  then show ?thesis by (simp add: stream_def)
next
  case (DoNext k)
  then show ?thesis using gen_next_frame[of k w] by simp
next
  case DoTerminate
  then show ?thesis by (cases "worker w") (simp_all add: terminate_worker terminate_no_worker)
qed

lemma disjoint_kept:
  "P' \<subseteq> P \<Longrightarrow> S' \<subseteq> S \<union> N \<Longrightarrow> P \<subseteq> A \<Longrightarrow> N \<inter> A = {} \<Longrightarrow> P \<inter> S = {} \<Longrightarrow> P' \<inter> S' = {}"
  by blast

lemma step_disjoint:
  assumes inj: "inj (id_source w)" and drawn: "ids_drawn w" and disj: "registries_disjoint w"
  shows "registries_disjoint (step e w)"
proof -
  let ?w' = "step e w"
  let ?N = "id_source w ` {id_draws w..<id_draws ?w'}"
  let ?O = "id_source w ` {..<id_draws w}"
  have f: "dom (pendingRequests ?w') \<subseteq> dom (pendingRequests w) \<union> ?N"
    "dom (streamingRequests ?w') \<subseteq> dom (streamingRequests w) \<union> ?N"
    using step_follows[of w e] by (simp_all add: follows_def)
  have old: "dom (pendingRequests w) \<subseteq> ?O" "dom (streamingRequests w) \<subseteq> ?O"
    using drawn by (simp_all add: ids_drawn_def)
  have apart: "?N \<inter> ?O = {}"
  proof (rule ccontr)
    assume "?N \<inter> ?O \<noteq> {}"
    then obtain x where "x \<in> ?N" "x \<in> ?O" by blast
    then obtain a b where a: "x = id_source w a" "id_draws w \<le> a"
      and b: "x = id_source w b" "b < id_draws w"
      unfolding image_iff by force
    have "a = b" using injD[OF inj, of a b] a(1) b(1) by simp
    with a(2) b(2) show False by simp
  qed
  have d: "dom (pendingRequests w) \<inter> dom (streamingRequests w) = {}"
    using disj by (simp add: registries_disjoint_def)
  have d': "dom (streamingRequests w) \<inter> dom (pendingRequests w) = {}"
    using d by (simp add: Int_commute)
  from step_one_sided[of e w] show ?thesis
  proof
    assume h: "dom (pendingRequests ?w') \<subseteq> dom (pendingRequests w)"
    show ?thesis
      unfolding registries_disjoint_def by (rule disjoint_kept[OF h f(2) old(1) apart d])
  next
    assume h: "dom (streamingRequests ?w') \<subseteq> dom (streamingRequests w)"
    have "dom (streamingRequests ?w') \<inter> dom (pendingRequests ?w') = {}"
      by (rule disjoint_kept[OF h f(1) old(2) apart d'])
    then show ?thesis
      unfolding registries_disjoint_def by (simp add: Int_commute)
  qed
qed

lemma run_disjoint:
  assumes "inj (id_source w)" and "ids_drawn w" and "registries_disjoint w"
  shows "registries_disjoint (run evs w) \<and> ids_drawn (run evs w)
    \<and> id_source (run evs w) = id_source w"
  using assms
proof (induction evs arbitrary: w)
  case Nil
  then show ?case by (simp add: run_def)
next
  case (Cons e evs)
  have r: "run (e # evs) w = run evs (step e w)" by (simp add: run_def)
  have s: "id_source (step e w) = id_source w"
    using step_follows[of w e] by (simp add: follows_def)
  have "registries_disjoint (step e w)" "ids_drawn (step e w)" "inj (id_source (step e w))"
    using Cons.prems step_disjoint[of w e] follows_ids_drawn[OF step_follows[of w e]]
    by (simp_all add: s)
  from Cons.IH[OF this(3,2,1)] show ?case by (simp add: r s)
qed

lemma load_tidy:
  "ids_drawn (snd (load src S options spawn))
   \<and> registries_disjoint (snd (load src S options spawn))
   \<and> id_source (snd (load src S options spawn)) = src"
proof (cases spawn)
  case (Inl e)
  then show ?thesis
    by (simp add: load_def init_def prim_defs new_WasmWorker_def ids_drawn_def
        registries_disjoint_def)
next
  case (Inr h)
  then show ?thesis
    by (simp add: load_def init_spawned new_WasmWorker_def ids_drawn_def registries_disjoint_def)
qed

lemma reachable_tidy:
  assumes "inj src"
  shows "registries_disjoint (run evs (snd (load src S options spawn)))
    \<and> ids_drawn (run evs (snd (load src S options spawn)))
    \<and> id_source (run evs (snd (load src S options spawn))) = src"
  using run_disjoint[of "snd (load src S options spawn)" evs] load_tidy[of src S options spawn] assms
  by simp

lemma example_loading_eq:
  "example_loading =
     (new_WasmWorker example_ids)
       \<lparr>worker := Some 0,
        pendingRequests := [''a'' \<mapsto> \<lparr>p_resolve = ResolveInit 0, p_reject = RejectPromise 0\<rparr>],
        error_listener := Some (RejectPromise 0),
        id_draws := 1, promises_made := 1,
        journal := [NewWorker 0, PendingSet ''a'',
                    Post (InitMsg ''a'' ''/module.wasm'' JUndefined) []]\<rparr>"
  by (simp add: example_loading_def load_def init_spawned new_WasmWorker_def example_ids_def
      example_options_def)

lemma example_ready_eq:
  "example_ready =
     (new_WasmWorker example_ids)
       \<lparr>worker := Some 0, initialized := True,
        error_listener := Some (RejectPromise 0),
        id_draws := 1, promises_made := 1,
        journal := [NewWorker 0, PendingSet ''a'',
                    Post (InitMsg ''a'' ''/module.wasm'' JUndefined) [],
                    CallResolve 0 JUndefined, PendingDelete ''a'']\<rparr>"
  by (simp add: example_ready_def example_loading_eq new_WasmWorker_def run_microtasks_def
      prim_defs)

text \<open>
  Claim C4. When the channel does not exist (\<open>worker\<close> is null) or the \<open>initialized\<close> flag
  is false, \<open>call\<close> fails at once with a not-initialized error (\<^verbatim>\<open>Worker not initialized\<close>
  without a worker, \<^verbatim>\<open>Worker not ready\<close> with the flag false) and leaves the world as it
  was: no message is posted, no identifier is drawn and no pending entry is created.
\<close>

theorem call_before_ready_fails:
  assumes "worker w = None \<or> \<not> initialized w"
  shows "call fn payload options w =
       (Inl (PlainError (if worker w = None then ''Worker not initialized''
                         else ''Worker not ready'')), w)
     \<and> posted (snd (call fn payload options w)) = posted w
     \<and> id_draws (snd (call fn payload options w)) = id_draws w
     \<and> pendingRequests (snd (call fn payload options w)) = pendingRequests w"
  using assms by (auto simp: call_def)

theorem call_before_ready_fails_witness:
  "worker (new_WasmWorker example_ids) = None
   \<and> call ''add'' (JObj [(''a'', JNum 1), (''b'', JNum 2)]) None (new_WasmWorker example_ids)
       = (Inl (PlainError ''Worker not initialized''), new_WasmWorker example_ids)
   \<and> \<not> initialized example_loading
   \<and> call ''add'' (JObj [(''a'', JNum 1), (''b'', JNum 2)]) None example_loading
       = (Inl (PlainError ''Worker not ready''), example_loading)
   \<and> posted (snd (call ''add'' (JObj [(''a'', JNum 1), (''b'', JNum 2)]) None example_loading))
       = [InitMsg ''a'' ''/module.wasm'' JUndefined]"
proof -
  have a: "worker (new_WasmWorker example_ids) = None \<or> \<not> initialized (new_WasmWorker example_ids)"
    by (simp add: new_WasmWorker_def)
  have b: "worker example_loading = None \<or> \<not> initialized example_loading"
    by (simp add: example_loading_eq new_WasmWorker_def)
  have c: "posted example_loading = [InitMsg ''a'' ''/module.wasm'' JUndefined]"
    by (simp add: example_loading_eq posted_def)
  show ?thesis
    using call_before_ready_fails[OF a, of "''add''" "JObj [(''a'', JNum 1), (''b'', JNum 2)]" None]
      call_before_ready_fails[OF b, of "''add''" "JObj [(''a'', JNum 1), (''b'', JNum 2)]" None] c
    by (simp add: new_WasmWorker_def example_loading_eq)
qed

lemma promise_state_cong:
  "List.map_filter settlement (journal w') = List.map_filter settlement (journal w)
   \<Longrightarrow> promise_state w' p = promise_state w p"
  by (simp add: promise_state_def)

lemma terminate_journal:
  "journal (terminate w) =
     journal w @ (case worker w of
                    Some h \<Rightarrow> [TerminateWorker h, PendingClear, StreamingClear]
                  | None \<Rightarrow> [])"
  by (cases "worker w") (simp_all add: terminate_worker terminate_no_worker)

lemma terminate_settles_nothing:
  "List.map_filter settlement (journal (terminate w)) = List.map_filter settlement (journal w)"
  by (cases "worker w") (simp_all add: terminate_journal List.map_filter_def)

lemma terminate_posts_nothing: "posted (terminate w) = posted w"
  by (cases "worker w") (simp_all add: terminate_journal posted_def List.map_filter_def)

lemma terminate_idem: "terminate (terminate w) = terminate w"
  by (cases "worker w") (simp_all add: terminate_worker terminate_no_worker)

lemma terminate_clears:
  assumes "coherent w"
  shows "worker (terminate w) = None \<and> \<not> initialized (terminate w)
    \<and> pendingRequests (terminate w) = Map.empty \<and> streamingRequests (terminate w) = Map.empty"
  using assms
  by (cases "worker w") (simp_all add: terminate_worker terminate_no_worker coherent_def)

text \<open>
  Claim C9. \<open>terminate\<close> is idempotent in every state, and does nothing on an instance
  that never had a worker. In every state that \<open>load\<close> followed by any sequence of
  operations and deliveries can reach, after \<open>terminate\<close> the worker is gone (its
  \<^verbatim>\<open>terminate()\<close> was called if there was one), \<open>initialized\<close> is false and both registries
  are empty; no \<open>resolve\<close> or \<open>reject\<close> callback was called, so every promise is in the
  state it was in; nothing was posted; a further \<open>terminate\<close> changes nothing; and a
  subsequent \<open>call\<close> fails with \<^verbatim>\<open>Worker not initialized\<close> without changing anything.
\<close>

theorem terminate_is_idempotent:
  "terminate (terminate w0) = terminate w0
   \<and> terminate (new_WasmWorker src) = new_WasmWorker src
   \<and> (let w = run evs (snd (load src S options spawn)); t = terminate w in
        worker t = None \<and> \<not> initialized t
        \<and> pendingRequests t = Map.empty \<and> streamingRequests t = Map.empty
        \<and> journal t = journal w @ (case worker w of
                                      Some h \<Rightarrow> [TerminateWorker h, PendingClear, StreamingClear]
                                    | None \<Rightarrow> [])
        \<and> List.map_filter settlement (journal t) = List.map_filter settlement (journal w)
        \<and> promise_state t p = promise_state w p
        \<and> posted t = posted w
        \<and> terminate t = t
        \<and> call fn payload copts t = (Inl (PlainError ''Worker not initialized''), t))"
proof -
  define w where "w = run evs (snd (load src S options spawn))"
  define t where "t = terminate w"
  have coh: "coherent w"
    unfolding w_def by (intro run_coherent load_coherent)
  have clear: "worker t = None \<and> \<not> initialized t
      \<and> pendingRequests t = Map.empty \<and> streamingRequests t = Map.empty"
    unfolding t_def by (rule terminate_clears[OF coh])
  have j: "journal t = journal w @ (case worker w of
                                      Some h \<Rightarrow> [TerminateWorker h, PendingClear, StreamingClear]
                                    | None \<Rightarrow> [])"
    unfolding t_def by (rule terminate_journal)
  have s: "List.map_filter settlement (journal t) = List.map_filter settlement (journal w)"
    unfolding t_def by (rule terminate_settles_nothing)
  have ps: "promise_state t p = promise_state w p"
    by (rule promise_state_cong[OF s])
  have po: "posted t = posted w"
    unfolding t_def by (rule terminate_posts_nothing)
  have idem: "terminate t = t"
    unfolding t_def by (rule terminate_idem)
  have c: "call fn payload copts t = (Inl (PlainError ''Worker not initialized''), t)"
    using clear by (simp add: call_def)
  have fresh: "terminate (new_WasmWorker src) = new_WasmWorker src"
    by (simp add: terminate_no_worker new_WasmWorker_def)
  have "worker t = None \<and> \<not> initialized t
        \<and> pendingRequests t = Map.empty \<and> streamingRequests t = Map.empty
        \<and> journal t = journal w @ (case worker w of
                                      Some h \<Rightarrow> [TerminateWorker h, PendingClear, StreamingClear]
                                    | None \<Rightarrow> [])
        \<and> List.map_filter settlement (journal t) = List.map_filter settlement (journal w)
        \<and> promise_state t p = promise_state w p
        \<and> posted t = posted w
        \<and> terminate t = t
        \<and> call fn payload copts t = (Inl (PlainError ''Worker not initialized''), t)"
    using clear j s ps po idem c by blast
  then show ?thesis
    unfolding Let_def t_def w_def using terminate_idem[of w0] fresh by blast
qed

lemma example_ready_run:
  "example_ready =
     run [Deliver (ResultMsg ''a'' (JObj [(''initialized'', JBool True)]))]
       (snd (load example_ids (js_String example_platform) example_options (Inr 0)))"
  by (simp add: example_ready_def example_loading_def run_def)

lemma run_append: "run (xs @ ys) w = run ys (run xs w)"
  by (simp add: run_def)

lemma example_busy_run:
  "example_busy =
     run [Deliver (ResultMsg ''a'' (JObj [(''initialized'', JBool True)])),
          DoCall ''add'' (JObj [(''a'', JNum 5), (''b'', JNum 3)]) None,
          DoStream ''numbers'' JUndefined, DoNext 0]
       (snd (load example_ids (js_String example_platform) example_options (Inr 0)))"
  unfolding example_busy_def example_ready_run run_append[symmetric] by simp

lemma example_busy_eq:
  "example_busy =
     (new_WasmWorker example_ids)
       \<lparr>worker := Some 0, initialized := True,
        pendingRequests := [''aa'' \<mapsto> \<lparr>p_resolve = ResolvePromise 1, p_reject = RejectPromise 1\<rparr>],
        streamingRequests := [''aaa'' \<mapsto> 0],
        error_listener := Some (RejectPromise 0),
        objects := (objects (new_WasmWorker example_ids))
          (0 := \<lparr>s_queue = [], s_resolve = ResolvePromise 2, s_reject = RejectPromise 2,
                 s_done = False\<rparr>),
        objects_made := 1,
        generators := [\<lparr>g_state = Awaiting ''aaa'' 0 2 1, g_out = []\<rparr>],
        id_draws := 3, promises_made := 3,
        journal := [NewWorker 0, PendingSet ''a'',
                    Post (InitMsg ''a'' ''/module.wasm'' JUndefined) [],
                    CallResolve 0 JUndefined, PendingDelete ''a'',
                    PendingSet ''aa'',
                    Post (CallMsg ''aa'' ''add'' (JObj [(''a'', JNum 5), (''b'', JNum 3)])) [],
                    StreamingSet ''aaa'', Post (StreamOpenMsg ''aaa'' ''numbers'' JUndefined) []]\<rparr>"
  by (simp add: example_busy_def run_def example_ready_eq call_ready stream_def gen_next_def
      stream_body_ready new_WasmWorker_def example_ids_def transfer_list_def set_gen_state_def
      eval_nat_numeral)

theorem terminate_is_idempotent_witness:
  "pendingRequests example_busy ''aa''
     = Some \<lparr>p_resolve = ResolvePromise 1, p_reject = RejectPromise 1\<rparr>
   \<and> streamingRequests example_busy ''aaa'' = Some 0
   \<and> worker (terminate example_busy) = None \<and> \<not> initialized (terminate example_busy)
   \<and> pendingRequests (terminate example_busy) = Map.empty
   \<and> streamingRequests (terminate example_busy) = Map.empty
   \<and> promise_state (terminate example_busy) 1 = None
   \<and> promise_state (terminate example_busy) 2 = None
   \<and> terminate (terminate example_busy) = terminate example_busy
   \<and> call ''add'' JNull None (terminate example_busy)
       = (Inl (PlainError ''Worker not initialized''), terminate example_busy)"
proof -
  have a: "promise_state example_busy 1 = None" "promise_state example_busy 2 = None"
    by (simp_all add: example_busy_eq promise_state_def)
  show ?thesis
    using a
      terminate_is_idempotent[of example_busy example_ids
        "[Deliver (ResultMsg ''a'' (JObj [(''initialized'', JBool True)])),
          DoCall ''add'' (JObj [(''a'', JNum 5), (''b'', JNum 3)]) None,
          DoStream ''numbers'' JUndefined, DoNext 0]"
        "js_String example_platform" example_options "Inr 0" 1 "''add''" JNull None]
      terminate_is_idempotent[of example_busy example_ids
        "[Deliver (ResultMsg ''a'' (JObj [(''initialized'', JBool True)])),
          DoCall ''add'' (JObj [(''a'', JNum 5), (''b'', JNum 3)]) None,
          DoStream ''numbers'' JUndefined, DoNext 0]"
        "js_String example_platform" example_options "Inr 0" 2 "''add''" JNull None]
    unfolding example_busy_run[symmetric]
    by (simp add: Let_def example_busy_eq)
qed

text \<open>
  Claim C10. Each of the three sending operations installs the registry entry for the
  identifier it has just drawn before it posts the message carrying that identifier: in
  the journal the registration stands immediately before the post, for \<open>init\<close> (once the
  worker is created), for \<open>call\<close>, and for the first \<^verbatim>\<open>next()\<close> of a generator made by
  \<open>stream\<close>; and when the operation returns, which is the earliest moment a response can
  be handled, the entry is in its registry.
\<close>

theorem registered_before_posted:
  "(let i = id_source w (id_draws w); p = promises_made w;
        w' = snd (init S options (Inr h) w) in
      journal w' = journal w @
        [NewWorker h, PendingSet i, Post (InitMsg i (moduleUrl options) (init_config options)) []]
      \<and> pendingRequests w' i = Some \<lparr>p_resolve = ResolveInit p, p_reject = RejectPromise p\<rparr>)
   \<and> (worker w \<noteq> None \<and> initialized w \<longrightarrow>
       (let i = id_source w (id_draws w); p = promises_made w;
            w' = snd (call fn payload copts w) in
          journal w' = journal w @
            [PendingSet i, Post (CallMsg i fn payload) (transfer_list copts)]
          \<and> pendingRequests w' i
              = Some \<lparr>p_resolve = ResolvePromise p, p_reject = RejectPromise p\<rparr>))
   \<and> (worker w \<noteq> None \<and> initialized w \<longrightarrow>
       (let i = id_source w (id_draws w);
            w' = gen_next (fst (stream fn payload w)) (snd (stream fn payload w)) in
          journal w' = journal w @ [StreamingSet i, Post (StreamOpenMsg i fn payload) []]
          \<and> streamingRequests w' i = Some (objects_made w)))"
proof (intro conjI impI)
  show "let i = id_source w (id_draws w); p = promises_made w;
        w' = snd (init S options (Inr h) w) in
      journal w' = journal w @
        [NewWorker h, PendingSet i, Post (InitMsg i (moduleUrl options) (init_config options)) []]
      \<and> pendingRequests w' i = Some \<lparr>p_resolve = ResolveInit p, p_reject = RejectPromise p\<rparr>"
    by (simp add: init_spawned Let_def)
next
  assume "worker w \<noteq> None \<and> initialized w"
  then show "let i = id_source w (id_draws w); p = promises_made w;
            w' = snd (call fn payload copts w) in
          journal w' = journal w @
            [PendingSet i, Post (CallMsg i fn payload) (transfer_list copts)]
          \<and> pendingRequests w' i
              = Some \<lparr>p_resolve = ResolvePromise p, p_reject = RejectPromise p\<rparr>"
    by (simp add: call_ready Let_def)
next
  assume h: "worker w \<noteq> None \<and> initialized w"
  let ?w0 = "snd (stream fn payload w)"
  have w0: "worker ?w0 \<noteq> None" "initialized ?w0"
    using h by (simp_all add: stream_def)
  have "gen_next (fst (stream fn payload w)) ?w0
      = stream_body (Suc 0) (length (generators w)) fn payload ?w0"
    by (simp add: gen_next_def stream_def)
  then show "let i = id_source w (id_draws w);
            w' = gen_next (fst (stream fn payload w)) (snd (stream fn payload w)) in
          journal w' = journal w @ [StreamingSet i, Post (StreamOpenMsg i fn payload) []]
          \<and> streamingRequests w' i = Some (objects_made w)"
    using stream_body_ready[OF w0, of 0 "length (generators w)" fn payload]
    by (simp add: Let_def stream_def set_gen_state_def)
qed

theorem registered_before_posted_witness:
  "journal (snd (init (js_String example_platform) example_options (Inr 0)
                   (new_WasmWorker example_ids)))
     = [NewWorker 0, PendingSet ''a'', Post (InitMsg ''a'' ''/module.wasm'' JUndefined) []]
   \<and> worker example_ready \<noteq> None \<and> initialized example_ready
   \<and> journal (snd (call ''add'' (JObj [(''a'', JNum 5), (''b'', JNum 3)]) None example_ready))
       = journal example_ready @
         [PendingSet ''aa'',
          Post (CallMsg ''aa'' ''add'' (JObj [(''a'', JNum 5), (''b'', JNum 3)])) []]
   \<and> pendingRequests
         (snd (call ''add'' (JObj [(''a'', JNum 5), (''b'', JNum 3)]) None example_ready)) ''aa''
       = Some \<lparr>p_resolve = ResolvePromise 1, p_reject = RejectPromise 1\<rparr>
   \<and> journal (gen_next (fst (stream ''numbers'' JUndefined example_ready))
                 (snd (stream ''numbers'' JUndefined example_ready)))
       = journal example_ready @
         [StreamingSet ''aa'', Post (StreamOpenMsg ''aa'' ''numbers'' JUndefined) []]
   \<and> streamingRequests (gen_next (fst (stream ''numbers'' JUndefined example_ready))
                 (snd (stream ''numbers'' JUndefined example_ready))) ''aa''
       = Some 0"
proof -
  have r: "worker example_ready \<noteq> None \<and> initialized example_ready"
    by (simp add: example_ready_eq)
  have i: "id_source example_ready (id_draws example_ready) = ''aa''"
    "promises_made example_ready = 1" "objects_made example_ready = 0"
    by (simp_all add: example_ready_eq new_WasmWorker_def example_ids_def eval_nat_numeral)
  have j: "id_source (new_WasmWorker example_ids) (id_draws (new_WasmWorker example_ids)) = ''a''"
    "journal (new_WasmWorker example_ids) = []"
    by (simp_all add: new_WasmWorker_def example_ids_def)
  show ?thesis
    using r
      registered_before_posted[of "new_WasmWorker example_ids" "js_String example_platform"
        example_options 0 "''add''" JNull None, THEN conjunct1]
      registered_before_posted[of example_ready "js_String example_platform" example_options 0
        "''add''" "JObj [(''a'', JNum 5), (''b'', JNum 3)]" None,
        THEN conjunct2, THEN conjunct1, rule_format, OF r]
      registered_before_posted[of example_ready "js_String example_platform" example_options 0
        "''numbers''" JUndefined None,
        THEN conjunct2, THEN conjunct2, rule_format, OF r]
    by (simp add: Let_def i j example_options_def transfer_list_def)
qed

lemma map_filter_append: "List.map_filter f (xs @ ys) = List.map_filter f xs @ List.map_filter f ys"
  by (simp add: List.map_filter_def)

lemma handleMessage_answer:
  assumes "pendingRequests w i = Some \<lparr>p_resolve = ResolvePromise p, p_reject = RejectPromise p\<rparr>"
    and "streamingRequests w i = None" and "answers i m"
  shows "handleMessage m w =
     w\<lparr>pendingRequests := (pendingRequests w)(i := None),
       journal := journal w @ settle_call p m @ [PendingDelete i]\<rparr>"
  using assms by (cases m) (simp_all add: prim_defs Let_def)

lemma handleMessage_other_id:
  assumes "response_id m \<noteq> Some a"
  shows "pendingRequests (handleMessage m w) a = pendingRequests w a"
proof (cases m)
  case (ResultMsg i v)
  then show ?thesis
    using assms
    by (cases "pendingRequests w i"; cases "p_resolve (the (pendingRequests w i))")
       (auto simp: prim_defs)
next
  case (ErrorMsg i err)
  then show ?thesis
    using assms
    by (cases "pendingRequests w i"; cases "streamingRequests w i";
        cases "p_reject (the (pendingRequests w i))";
        cases "s_reject (objects w (the (streamingRequests w i)))")
       (auto simp: prim_defs Let_def)
next
  case (StreamChunkMsg i v)
  then show ?thesis
    by (cases "streamingRequests w i"; cases "s_resolve (objects w (the (streamingRequests w i)))")
       (auto simp: prim_defs Let_def)
next
  case (StreamCloseMsg i)
  then show ?thesis
    by (cases "streamingRequests w i"; cases "s_resolve (objects w (the (streamingRequests w i)))")
       (auto simp: prim_defs Let_def)
next
  case ReadyMsg
  then show ?thesis by simp
qed

lemma two_calls_answered_in_reverse:
  assumes ready: "worker w \<noteq> None" "initialized w"
    and distinct: "id_source w (id_draws w) \<noteq> id_source w (Suc (id_draws w))"
    and unused: "streamingRequests w (id_source w (id_draws w)) = None"
      "streamingRequests w (id_source w (Suc (id_draws w))) = None"
    and mB: "answers (id_source w (Suc (id_draws w))) mB"
    and mA: "answers (id_source w (id_draws w)) mA"
  shows "let a = id_source w (id_draws w); b = id_source w (Suc (id_draws w));
             pA = promises_made w; pB = Suc (promises_made w);
             wA = snd (call fnA payloadA optsA w);
             wAB = snd (call fnB payloadB optsB wA);
             w1 = handleMessage mB wAB;
             w2 = handleMessage mA w1 in
           fst (call fnA payloadA optsA w) = Inr pA
         \<and> fst (call fnB payloadB optsB wA) = Inr pB
         \<and> posted wAB = posted w @ [CallMsg a fnA payloadA, CallMsg b fnB payloadB]
         \<and> journal w1 = journal wAB @ settle_call pB mB @ [PendingDelete b]
         \<and> pendingRequests w1 b = None
         \<and> pendingRequests w1 a = pendingRequests wAB a
         \<and> promise_state w1 pA = promise_state wAB pA
         \<and> pendingRequests w1 a = Some \<lparr>p_resolve = ResolvePromise pA, p_reject = RejectPromise pA\<rparr>
         \<and> journal w2 = journal w1 @ settle_call pA mA @ [PendingDelete a]
         \<and> pendingRequests w2 a = None
         \<and> (\<forall>m w'. response_id m \<noteq> Some a \<longrightarrow>
               pendingRequests (handleMessage m w') a = pendingRequests w' a)"
proof -
  define a where "a = id_source w (id_draws w)"
  define b where "b = id_source w (Suc (id_draws w))"
  define pA where "pA = promises_made w"
  define wA where "wA = snd (call fnA payloadA optsA w)"
  define wAB where "wAB = snd (call fnB payloadB optsB wA)"
  define w1 where "w1 = handleMessage mB wAB"
  define w2 where "w2 = handleMessage mA w1"
  note defs = a_def b_def pA_def wA_def wAB_def w1_def w2_def
  have ab: "a \<noteq> b" using distinct by (simp add: a_def b_def)
  have callA: "call fnA payloadA optsA w =
      (Inr pA,
       w\<lparr>pendingRequests := (pendingRequests w)(a \<mapsto>
             \<lparr>p_resolve = ResolvePromise pA, p_reject = RejectPromise pA\<rparr>),
         id_draws := Suc (id_draws w), promises_made := Suc pA,
         journal := journal w @ [PendingSet a, Post (CallMsg a fnA payloadA) (transfer_list optsA)]\<rparr>)"
    unfolding a_def pA_def by (rule call_ready[OF ready])
  have wA: "worker wA \<noteq> None" "initialized wA" "id_source wA (id_draws wA) = b"
    "promises_made wA = Suc pA" "streamingRequests wA = streamingRequests w"
    "pendingRequests wA a = Some \<lparr>p_resolve = ResolvePromise pA, p_reject = RejectPromise pA\<rparr>"
    "journal wA = journal w @ [PendingSet a, Post (CallMsg a fnA payloadA) (transfer_list optsA)]"
    using ready by (simp_all add: wA_def callA b_def)
  have callB: "call fnB payloadB optsB wA =
      (Inr (Suc pA),
       wA\<lparr>pendingRequests := (pendingRequests wA)(b \<mapsto>
             \<lparr>p_resolve = ResolvePromise (Suc pA), p_reject = RejectPromise (Suc pA)\<rparr>),
         id_draws := Suc (id_draws wA), promises_made := Suc (Suc pA),
         journal := journal wA @ [PendingSet b, Post (CallMsg b fnB payloadB) (transfer_list optsB)]\<rparr>)"
    using call_ready[OF wA(1,2), of fnB payloadB optsB] by (simp add: wA)
  have wAB: "pendingRequests wAB b
      = Some \<lparr>p_resolve = ResolvePromise (Suc pA), p_reject = RejectPromise (Suc pA)\<rparr>"
    "pendingRequests wAB a = Some \<lparr>p_resolve = ResolvePromise pA, p_reject = RejectPromise pA\<rparr>"
    "streamingRequests wAB = streamingRequests w"
    "journal wAB = journal wA @ [PendingSet b, Post (CallMsg b fnB payloadB) (transfer_list optsB)]"
    using ab by (simp_all add: wAB_def callB wA)
  have sB: "streamingRequests wAB b = None" and sA: "streamingRequests wAB a = None"
    using unused by (simp_all add: wAB a_def b_def)
  have w1: "w1 = wAB\<lparr>pendingRequests := (pendingRequests wAB)(b := None),
       journal := journal wAB @ settle_call (Suc pA) mB @ [PendingDelete b]\<rparr>"
    unfolding w1_def using mB by (intro handleMessage_answer[OF wAB(1) sB]) (simp add: b_def)
  have w1a: "pendingRequests w1 a
      = Some \<lparr>p_resolve = ResolvePromise pA, p_reject = RejectPromise pA\<rparr>"
    "streamingRequests w1 a = None"
    using ab sA by (simp_all add: w1 wAB)
  have w2: "w2 = w1\<lparr>pendingRequests := (pendingRequests w1)(a := None),
       journal := journal w1 @ settle_call pA mA @ [PendingDelete a]\<rparr>"
    unfolding w2_def using mA by (intro handleMessage_answer[OF w1a]) (simp add: a_def)
  have posted: "posted wAB = posted w @ [CallMsg a fnA payloadA, CallMsg b fnB payloadB]"
    by (simp add: posted_def wAB wA List.map_filter_def)
  have "map_of (List.map_filter settlement (settle_call (Suc pA) mB)) pA = None"
    by (cases mB) (simp_all add:)
  then have unaffected: "promise_state w1 pA = promise_state wAB pA"
    by (simp add: promise_state_def w1 map_filter_append map_add_def
        split: option.splits)
  have "fst (call fnA payloadA optsA w) = Inr pA
         \<and> fst (call fnB payloadB optsB wA) = Inr (Suc pA)
         \<and> posted wAB = posted w @ [CallMsg a fnA payloadA, CallMsg b fnB payloadB]
         \<and> journal w1 = journal wAB @ settle_call (Suc pA) mB @ [PendingDelete b]
         \<and> pendingRequests w1 b = None
         \<and> pendingRequests w1 a = pendingRequests wAB a
         \<and> promise_state w1 pA = promise_state wAB pA
         \<and> pendingRequests w1 a = Some \<lparr>p_resolve = ResolvePromise pA, p_reject = RejectPromise pA\<rparr>
         \<and> journal w2 = journal w1 @ settle_call pA mA @ [PendingDelete a]
         \<and> pendingRequests w2 a = None
         \<and> (\<forall>m w'. response_id m \<noteq> Some a \<longrightarrow>
               pendingRequests (handleMessage m w') a = pendingRequests w' a)"
    using posted w1a(1) wAB(2) unaffected
    by (simp add: callA callB w2 handleMessage_other_id) (simp add: w1)
  then show ?thesis
    unfolding Let_def defs .
qed

lemma example_calling_eq:
  "example_calling =
     example_ready
       \<lparr>pendingRequests := [''aa'' \<mapsto> \<lparr>p_resolve = ResolvePromise 1, p_reject = RejectPromise 1\<rparr>],
        id_draws := 2, promises_made := 2,
        journal := journal example_ready @
          [PendingSet ''aa'',
           Post (CallMsg ''aa'' ''add'' (JObj [(''a'', JNum 5), (''b'', JNum 3)])) []]\<rparr>"
  by (simp add: example_calling_def call_ready example_ready_eq new_WasmWorker_def example_ids_def
      transfer_list_def eval_nat_numeral)

text \<open>
  Claim C2. In any state that \<open>load\<close> followed by any sequence of operations and
  deliveries can reach, with a generator that never returns an identifier twice and the
  controller ready, two calls A and B are made in that order; they draw the identifiers
  \<open>a\<close> and \<open>b\<close>. B's answer (a \<open>result\<close> or an \<open>error\<close>) arrives first, then A's. Handling
  B's answer calls the callback of B's promise with what B's answer carries and removes
  B's entry; A's entry and the state of A's promise are as before. Handling A's answer
  then settles A's promise with what A's answer carries. In general a message whose id is
  not \<open>a\<close> never changes the pending entry for \<open>a\<close>.
\<close>

theorem answers_out_of_order:
  assumes unique: "inj src"
    and reach: "w = run evs (snd (load src S options spawn))"
    and ready: "worker w \<noteq> None" "initialized w"
    and mB: "answers (src (Suc (id_draws w))) mB"
    and mA: "answers (src (id_draws w)) mA"
  shows "let a = src (id_draws w); b = src (Suc (id_draws w));
             pA = promises_made w; pB = Suc (promises_made w);
             wA = snd (call fnA payloadA optsA w);
             wAB = snd (call fnB payloadB optsB wA);
             w1 = handleMessage mB wAB;
             w2 = handleMessage mA w1 in
           fst (call fnA payloadA optsA w) = Inr pA
         \<and> fst (call fnB payloadB optsB wA) = Inr pB
         \<and> posted wAB = posted w @ [CallMsg a fnA payloadA, CallMsg b fnB payloadB]
         \<and> journal w1 = journal wAB @ settle_call pB mB @ [PendingDelete b]
         \<and> pendingRequests w1 b = None
         \<and> pendingRequests w1 a = pendingRequests wAB a
         \<and> promise_state w1 pA = promise_state wAB pA
         \<and> pendingRequests w1 a = Some \<lparr>p_resolve = ResolvePromise pA, p_reject = RejectPromise pA\<rparr>
         \<and> journal w2 = journal w1 @ settle_call pA mA @ [PendingDelete a]
         \<and> pendingRequests w2 a = None
         \<and> (\<forall>m w'. response_id m \<noteq> Some a \<longrightarrow>
               pendingRequests (handleMessage m w') a = pendingRequests w' a)"
proof -
  have tidy: "ids_drawn w" "id_source w = src"
    using reachable_tidy[OF unique, of evs S options spawn] reach by simp_all
  have distinct: "id_source w (id_draws w) \<noteq> id_source w (Suc (id_draws w))"
    using injD[OF unique, of "id_draws w" "Suc (id_draws w)"] by (auto simp: tidy)
  have fresh: "streamingRequests w (src n) = None" if "id_draws w \<le> n" for n
  proof (rule ccontr)
    assume "streamingRequests w (src n) \<noteq> None"
    then have "src n \<in> src ` {..<id_draws w}"
      using tidy by (auto simp: ids_drawn_def)
    then obtain k where "src n = src k" "k < id_draws w" by auto
    then show False using injD[OF unique, of n k] that by simp
  qed
  have unused: "streamingRequests w (id_source w (id_draws w)) = None"
    "streamingRequests w (id_source w (Suc (id_draws w))) = None"
    by (simp_all add: tidy fresh)
  show ?thesis
    using two_calls_answered_in_reverse[OF ready distinct unused,
        of mB mA fnA payloadA optsA fnB payloadB optsB] mB mA
    by (simp add: tidy)
qed

lemma inj_example_ids: "inj example_ids"
proof (rule injI)
  fix x y
  assume "example_ids x = example_ids y"
  then have "length (example_ids x) = length (example_ids y)" by simp
  then show "x = y" by (simp add: example_ids_def)
qed

theorem answers_out_of_order_witness:
  "worker example_ready \<noteq> None \<and> initialized example_ready
   \<and> example_ids (id_draws example_ready) = ''aa''
   \<and> example_ids (Suc (id_draws example_ready)) = ''aaa''
   \<and> journal (handleMessage (ResultMsg ''aa'' (JNum 8))
               (handleMessage (ResultMsg ''aaa'' (JNum 14))
                  (snd (call ''double'' (JNum 7) None
                     (snd (call ''add'' (JObj [(''a'', JNum 5), (''b'', JNum 3)]) None
                             example_ready))))))
       = journal (snd (call ''double'' (JNum 7) None
                     (snd (call ''add'' (JObj [(''a'', JNum 5), (''b'', JNum 3)]) None
                             example_ready))))
         @ [CallResolve 2 (JNum 14), PendingDelete ''aaa'',
            CallResolve 1 (JNum 8), PendingDelete ''aa'']"
proof -
  have r: "worker example_ready \<noteq> None" "initialized example_ready"
    by (simp_all add: example_ready_eq)
  have i: "example_ids (id_draws example_ready) = ''aa''"
    "example_ids (Suc (id_draws example_ready)) = ''aaa''"
    "promises_made example_ready = 1"
    by (simp_all add: example_ready_eq new_WasmWorker_def example_ids_def eval_nat_numeral)
  have mB: "answers (example_ids (Suc (id_draws example_ready))) (ResultMsg ''aaa'' (JNum 14))"
    and mA: "answers (example_ids (id_draws example_ready)) (ResultMsg ''aa'' (JNum 8))"
    by (simp_all add: i)
  show ?thesis
    using r i
      answers_out_of_order[OF inj_example_ids example_ready_run r mB mA,
        of "''add''" "JObj [(''a'', JNum 5), (''b'', JNum 3)]" None "''double''" "JNum 7" None]
    by (simp add: Let_def numeral_2_eq_2 del: handleMessage.simps)
qed

lemma handleMessage_no_entry:
  assumes "pendingRequests w X = None" and "streamingRequests w X = None" and "answers X m"
  shows "handleMessage m w = w"
  using assms by (cases m) (simp_all add: Let_def)

lemma absent_after_run:
  assumes "pendingRequests w X = None" and "streamingRequests w X = None"
    and "\<forall>n\<ge>id_draws w. id_source w n \<noteq> X"
  shows "pendingRequests (run evs w) X = None \<and> streamingRequests (run evs w) X = None"
proof -
  have f: "follows w (run evs w)" by (rule run_follows)
  have "X \<notin> id_source w ` {id_draws w..<id_draws (run evs w)}"
    using assms(3) by auto
  moreover have "X \<notin> dom (pendingRequests w)" "X \<notin> dom (streamingRequests w)"
    using assms(1,2) by auto
  ultimately have "X \<notin> dom (pendingRequests (run evs w))"
    "X \<notin> dom (streamingRequests (run evs w))"
    using f unfolding follows_def by blast+
  then show ?thesis by auto
qed

lemma answer_settles_and_retires:
  assumes entry: "pendingRequests w X = Some e" and unary: "streamingRequests w X = None"
    and answer: "answers X m"
    and retired: "\<forall>n\<ge>id_draws w. id_source w n \<noteq> X"
  shows "handleMessage m w =
      pending_delete X
        (case m of
           ResultMsg i v \<Rightarrow> call_resolve (p_resolve e) v w
         | ErrorMsg i err \<Rightarrow>
             call_reject (p_reject e) (createError (code err) (message err) (details err)) w
         | _ \<Rightarrow> w)
    \<and> pendingRequests (handleMessage m w) X = None
    \<and> length (List.map_filter settlement (journal (handleMessage m w)))
        \<le> Suc (length (List.map_filter settlement (journal w)))
    \<and> (\<forall>evs m'. answers X m' \<longrightarrow>
          pendingRequests (run evs (handleMessage m w)) X = None
          \<and> streamingRequests (run evs (handleMessage m w)) X = None
          \<and> handleMessage m' (run evs (handleMessage m w)) = run evs (handleMessage m w))"
proof -
  let ?w1 = "handleMessage m w"
  have step: "?w1 =
      pending_delete X
        (case m of
           ResultMsg i v \<Rightarrow> call_resolve (p_resolve e) v w
         | ErrorMsg i err \<Rightarrow>
             call_reject (p_reject e) (createError (code err) (message err) (details err)) w
         | _ \<Rightarrow> w)"
    using entry unary answer by (cases m) (simp_all add: Let_def)
  have gone: "pendingRequests ?w1 X = None" "streamingRequests ?w1 X = None"
    using handleMessage_frame[of m w] unary
    by (auto simp: step pending_delete_def)
  have count: "length (List.map_filter settlement (journal ?w1))
        \<le> Suc (length (List.map_filter settlement (journal w)))"
    using answer unfolding step
    by (cases m; cases "p_resolve e"; cases "p_reject e")
       (simp_all add: prim_defs map_filter_append)
  have same: "id_draws ?w1 = id_draws w" "id_source ?w1 = id_source w"
    using handleMessage_frame[of m w] by simp_all
  have later: "pendingRequests (run evs ?w1) X = None
          \<and> streamingRequests (run evs ?w1) X = None
          \<and> handleMessage m' (run evs ?w1) = run evs ?w1" if "answers X m'" for evs m'
  proof -
    have "pendingRequests (run evs ?w1) X = None \<and> streamingRequests (run evs ?w1) X = None"
      using retired by (intro absent_after_run gone) (simp add: same)
    then show ?thesis using handleMessage_no_entry[OF _ _ that] by simp
  qed
  show ?thesis
    using step gone(1) count later by blast
qed

text \<open>
  Claim C1. In any state that \<open>load\<close> followed by any sequence of operations and
  deliveries can reach, with a generator that never returns an identifier twice, let \<open>X\<close>
  be the id of a pending entry, answered by a \<open>result\<close> or \<open>error\<close> message. Handling the
  answer calls the entry's \<open>resolve\<close> (for a result) or \<open>reject\<close> (for an error) and
  deletes the entry in the same step, with at most one settlement call. After any further
  sequence of operations and deliveries no registry holds \<open>X\<close>, and a later \<open>result\<close> or
  \<open>error\<close> carrying \<open>X\<close> leaves the whole world unchanged: no callback is called and no
  registry changes.
\<close>

theorem settled_at_most_once:
  assumes unique: "inj src"
    and reach: "w = run evs0 (snd (load src S options spawn))"
    and entry: "pendingRequests w X = Some e"
    and answer: "answers X m"
  shows "handleMessage m w =
      pending_delete X
        (case m of
           ResultMsg i v \<Rightarrow> call_resolve (p_resolve e) v w
         | ErrorMsg i err \<Rightarrow>
             call_reject (p_reject e) (createError (code err) (message err) (details err)) w
         | _ \<Rightarrow> w)
    \<and> pendingRequests (handleMessage m w) X = None
    \<and> length (List.map_filter settlement (journal (handleMessage m w)))
        \<le> Suc (length (List.map_filter settlement (journal w)))
    \<and> (\<forall>evs m'. answers X m' \<longrightarrow>
          pendingRequests (run evs (handleMessage m w)) X = None
          \<and> streamingRequests (run evs (handleMessage m w)) X = None
          \<and> handleMessage m' (run evs (handleMessage m w)) = run evs (handleMessage m w))"
proof -
  have tidy: "registries_disjoint w" "ids_drawn w" "id_source w = src"
    using reachable_tidy[OF unique, of evs0 S options spawn] reach by simp_all
  have unary: "streamingRequests w X = None"
    using tidy(1) entry by (auto simp: registries_disjoint_def)
  have "X \<in> src ` {..<id_draws w}"
    using tidy(2,3) entry by (auto simp: ids_drawn_def)
  then obtain k where k: "X = src k" "k < id_draws w" by auto
  have retired: "\<forall>n\<ge>id_draws w. id_source w n \<noteq> X"
  proof (intro allI impI)
    fix n assume "id_draws w \<le> n"
    then show "id_source w n \<noteq> X"
      using injD[OF unique, of n k] k by (auto simp: tidy)
  qed
  show ?thesis
    by (rule answer_settles_and_retires[OF entry unary answer retired])
qed

theorem settled_at_most_once_witness:
  "pendingRequests example_calling ''aa''
     = Some \<lparr>p_resolve = ResolvePromise 1, p_reject = RejectPromise 1\<rparr>
   \<and> streamingRequests example_calling ''aa'' = None
   \<and> journal (handleMessage (ResultMsg ''aa'' (JNum 8)) example_calling)
       = journal example_calling @ [CallResolve 1 (JNum 8), PendingDelete ''aa'']
   \<and> pendingRequests (handleMessage (ResultMsg ''aa'' (JNum 8)) example_calling) ''aa'' = None
   \<and> handleMessage (ResultMsg ''aa'' (JNum 9))
        (run [DoCall ''double'' (JNum 7) None, Deliver (ResultMsg ''aaa'' (JNum 14))]
           (handleMessage (ResultMsg ''aa'' (JNum 8)) example_calling))
       = run [DoCall ''double'' (JNum 7) None, Deliver (ResultMsg ''aaa'' (JNum 14))]
           (handleMessage (ResultMsg ''aa'' (JNum 8)) example_calling)
   \<and> handleMessage
        (ErrorMsg ''aa'' \<lparr>code = WASM_TRAP, message = ''late'', details = JUndefined\<rparr>)
        (handleMessage (ResultMsg ''aa'' (JNum 8)) example_calling)
       = handleMessage (ResultMsg ''aa'' (JNum 8)) example_calling"
proof -
  have e: "pendingRequests example_calling ''aa''
     = Some \<lparr>p_resolve = ResolvePromise 1, p_reject = RejectPromise 1\<rparr>"
    and u: "streamingRequests example_calling ''aa'' = None"
    by (simp_all add: example_calling_eq example_ready_eq new_WasmWorker_def)
  have a: "answers ''aa'' (ResultMsg ''aa'' (JNum 8))" by simp
  have r: "example_calling =
      run [Deliver (ResultMsg ''a'' (JObj [(''initialized'', JBool True)])),
           DoCall ''add'' (JObj [(''a'', JNum 5), (''b'', JNum 3)]) None]
        (snd (load example_ids (js_String example_platform) example_options (Inr 0)))"
    by (simp add: example_calling_def example_ready_def example_loading_def run_def)
  note th = settled_at_most_once[OF inj_example_ids r e a]
  have gone: "pendingRequests (handleMessage (ResultMsg ''aa'' (JNum 8)) example_calling) ''aa''
      = None"
    using th by blast
  have later: "handleMessage m' (run evs (handleMessage (ResultMsg ''aa'' (JNum 8)) example_calling))
      = run evs (handleMessage (ResultMsg ''aa'' (JNum 8)) example_calling)"
    if "answers ''aa'' m'" for evs m'
    using th that by blast
  have l1: "handleMessage (ResultMsg ''aa'' (JNum 9))
        (run [DoCall ''double'' (JNum 7) None, Deliver (ResultMsg ''aaa'' (JNum 14))]
           (handleMessage (ResultMsg ''aa'' (JNum 8)) example_calling))
       = run [DoCall ''double'' (JNum 7) None, Deliver (ResultMsg ''aaa'' (JNum 14))]
           (handleMessage (ResultMsg ''aa'' (JNum 8)) example_calling)"
    by (rule later) simp
  have "handleMessage
        (ErrorMsg ''aa'' \<lparr>code = WASM_TRAP, message = ''late'', details = JUndefined\<rparr>)
        (run [] (handleMessage (ResultMsg ''aa'' (JNum 8)) example_calling))
       = run [] (handleMessage (ResultMsg ''aa'' (JNum 8)) example_calling)"
    by (rule later) simp
  then have l2: "handleMessage
        (ErrorMsg ''aa'' \<lparr>code = WASM_TRAP, message = ''late'', details = JUndefined\<rparr>)
        (handleMessage (ResultMsg ''aa'' (JNum 8)) example_calling)
       = handleMessage (ResultMsg ''aa'' (JNum 8)) example_calling"
    by (simp only: run_def fold.simps id_apply)
  have j: "journal (handleMessage (ResultMsg ''aa'' (JNum 8)) example_calling)
       = journal example_calling @ [CallResolve 1 (JNum 8), PendingDelete ''aa'']"
    by (simp add: e prim_defs)
  show ?thesis
    using e u j gone l1 l2 by blast
qed
























lemma promises_known_generators:
  assumes "promises_known w"
  shows "promises_known (w\<lparr>generators := gs\<rparr>)"
  using assms by (simp add: promises_known_def)


























end
